theory Spec2Isabelle
  imports Main
begin

section \<open>JavaScript maps\<close>

text \<open>
  A JavaScript \<open>Map\<close> keeps its entries in insertion order, holds each key at most once,
  and \<open>set\<close> on a key that is present replaces the value where it stands. It is modelled
  as an association list with these three operations.
\<close>

type_synonym ('k, 'v) jsmap = "('k \<times> 'v) list"

fun map_get :: "('k, 'v) jsmap \<Rightarrow> 'k \<Rightarrow> 'v option" where
  "map_get [] k = None"
| "map_get ((k', v) # m) k = (if k' = k then Some v else map_get m k)"

fun map_set :: "('k, 'v) jsmap \<Rightarrow> 'k \<Rightarrow> 'v \<Rightarrow> ('k, 'v) jsmap" where
  "map_set [] k v = [(k, v)]"
| "map_set ((k', v') # m) k v = (if k' = k then (k, v) # m else (k', v') # map_set m k v)"

definition map_values :: "('k, 'v) jsmap \<Rightarrow> 'v list" where
  "map_values m = map snd m"

section \<open>Session and implementation tracking (services/session.ts)\<close>

text \<open>
  Times are milliseconds since the epoch. The source stores them as ISO strings made by
  \<open>toISOString\<close> and reads them back with \<open>new Date(s).getTime()\<close>, which returns the
  same millisecond count, so the string form is not modelled. Every reading of the clock
  is an argument of the operation that makes it, in the order the source reads it.
\<close>

datatype status = Pending | InProgress | Implemented | NeedsUpdate

record ComponentImplementationStatus =
  componentId :: string
  componentName :: string
  status :: status
  lastModified :: "int option"
  implementedAt :: "int option"
  cis_notes :: "string option"
  cis_framework :: "string option"

record WorkingFile =
  fileId :: string
  fileName :: "string option"
  url :: string
  setAt :: int
  lastAccessed :: int
  componentCount :: "nat option"
  implementationStatus :: "(string, ComponentImplementationStatus) jsmap"

record ParsedFigmaUrl =
  pu_fileId :: string
  pu_fileName :: "string option"
  pu_url :: string

datatype component_type = COMPONENT | COMPONENT_SET

record ComponentListItem =
  cli_id :: string
  cli_name :: string
  cli_type :: component_type
  cli_variantCount :: "nat option"
  cli_lastModified :: string
  cli_published :: bool

record ImplementationQueue =
  pending :: "ComponentListItem list"
  inProgress :: "ComponentListItem list"
  implemented :: "ComponentListItem list"
  needsUpdate :: "ComponentListItem list"
  total :: nat

record status_options =
  opt_notes :: "string option"
  opt_framework :: "string option"

text \<open>
  The session table is only read, written and deleted by key, so it is a partial function
  from client identifiers; the status table of a session is also enumerated, so it is a
  \<open>jsmap\<close>.
\<close>

type_synonym sessions = "string \<rightharpoonup> WorkingFile"

definition SESSION_TTL :: int where
  "SESSION_TTL = 24 * 60 * 60 * 1000"

text \<open>\<open>fileName || parsedUrl.fileName\<close>: an absent or empty name falls through.\<close>

definition or_string :: "string option \<Rightarrow> string option \<Rightarrow> string option" where
  "or_string a b = (case a of None \<Rightarrow> b | Some s \<Rightarrow> if s = [] then b else Some s)"

definition setWorkingFile ::
  "sessions \<Rightarrow> string \<Rightarrow> ParsedFigmaUrl \<Rightarrow> string option \<Rightarrow> int \<Rightarrow> WorkingFile \<times> sessions" where
  "setWorkingFile ss clientId parsedUrl fileName_arg now =
     (let workingFile = \<lparr> fileId = pu_fileId parsedUrl,
                           fileName = or_string fileName_arg (pu_fileName parsedUrl),
                           url = pu_url parsedUrl,
                           setAt = now,
                           lastAccessed = now,
                           componentCount = None,
                           implementationStatus = [] \<rparr>
      in (workingFile, ss(clientId \<mapsto> workingFile)))"

text \<open>
  \<open>getWorkingFile\<close> reads the clock twice: \<open>now\<close> is \<open>Date.now()\<close> of the expiry test,
  \<open>accessed\<close> is the \<open>new Date()\<close> written to \<open>lastAccessed\<close>. The source mutates the
  session object that the map holds; the model writes the changed record back.
\<close>

definition getWorkingFile ::
  "sessions \<Rightarrow> string \<Rightarrow> int \<Rightarrow> int \<Rightarrow> WorkingFile option \<times> sessions" where
  "getWorkingFile ss clientId now accessed =
     (case ss clientId of
        None \<Rightarrow> (None, ss)
      | Some session \<Rightarrow>
          if now - setAt session > SESSION_TTL
          then (None, ss(clientId := None))
          else (let session' = session\<lparr>lastAccessed := accessed\<rparr>
                in (Some session', ss(clientId \<mapsto> session'))))"

definition updateComponentStatus ::
  "sessions \<Rightarrow> string \<Rightarrow> string \<Rightarrow> string \<Rightarrow> status \<Rightarrow> status_options
     \<Rightarrow> int \<Rightarrow> int \<Rightarrow> int \<Rightarrow> bool \<times> sessions" where
  "updateComponentStatus ss clientId cid cname st options now accessed updated =
     (case getWorkingFile ss clientId now accessed of
        (None, ss') \<Rightarrow> (False, ss')
      | (Some session, ss') \<Rightarrow>
          (let existing = map_get (implementationStatus session) cid;
               statusUpdate = \<lparr> componentId = cid,
                                componentName = cname,
                                status = st,
                                lastModified = Some updated,
                                implementedAt =
                                  (if st = Implemented then Some updated
                                   else (case existing of None \<Rightarrow> None
                                         | Some e \<Rightarrow> implementedAt e)),
                                cis_notes = opt_notes options,
                                cis_framework = opt_framework options \<rparr>;
               session' = session\<lparr> implementationStatus :=
                                      map_set (implementationStatus session) cid statusUpdate,
                                    lastAccessed := updated \<rparr>
           in (True, ss'(clientId \<mapsto> session'))))"

definition getComponentStatus ::
  "sessions \<Rightarrow> string \<Rightarrow> string \<Rightarrow> int \<Rightarrow> int
     \<Rightarrow> ComponentImplementationStatus option \<times> sessions" where
  "getComponentStatus ss clientId cid now accessed =
     (case getWorkingFile ss clientId now accessed of
        (None, ss') \<Rightarrow> (None, ss')
      | (Some session, ss') \<Rightarrow> (map_get (implementationStatus session) cid, ss'))"

text \<open>
  The status looked up for one component of the queue: \<open>session?.implementationStatus.get(id)\<close>.
\<close>

definition tracked :: "WorkingFile option \<Rightarrow> string \<Rightarrow> ComponentImplementationStatus option" where
  "tracked session cid =
     (case session of None \<Rightarrow> None | Some s \<Rightarrow> map_get (implementationStatus s) cid)"

definition enqueue ::
  "WorkingFile option \<Rightarrow> ImplementationQueue \<Rightarrow> ComponentListItem \<Rightarrow> ImplementationQueue" where
  "enqueue session queue component =
     (case tracked session (cli_id component) of
        None \<Rightarrow> queue\<lparr>pending := pending queue @ [component]\<rparr>
      | Some s \<Rightarrow>
          if status s = Pending then queue\<lparr>pending := pending queue @ [component]\<rparr>
          else if status s = InProgress then queue\<lparr>inProgress := inProgress queue @ [component]\<rparr>
          else if status s = Implemented then queue\<lparr>implemented := implemented queue @ [component]\<rparr>
          else if status s = NeedsUpdate then queue\<lparr>needsUpdate := needsUpdate queue @ [component]\<rparr>
          else queue)"

definition getImplementationQueue ::
  "sessions \<Rightarrow> string \<Rightarrow> ComponentListItem list \<Rightarrow> int \<Rightarrow> int
     \<Rightarrow> ImplementationQueue \<times> sessions" where
  "getImplementationQueue ss clientId components now accessed =
     (case getWorkingFile ss clientId now accessed of
        (session, ss') \<Rightarrow>
          (foldl (enqueue session)
             \<lparr> pending = [], inProgress = [], implemented = [], needsUpdate = [],
               total = length components \<rparr>
             components,
           ss'))"

text \<open>
  The bucket the documentation assigns to a component: its tracked status, and
  \<open>pending\<close> when it is untracked or no live session exists.
\<close>

definition bucket :: "WorkingFile option \<Rightarrow> ComponentListItem \<Rightarrow> status" where
  "bucket session c =
     (case tracked session (cli_id c) of None \<Rightarrow> Pending | Some s \<Rightarrow> status s)"

subsection \<open>Sample data\<close>

definition sample_status :: "string \<Rightarrow> status \<Rightarrow> int \<Rightarrow> ComponentImplementationStatus" where
  "sample_status cid st t =
     \<lparr> componentId = cid, componentName = ''Button'', status = st,
       lastModified = Some t, implementedAt = (if st = Implemented then Some t else None),
       cis_notes = None, cis_framework = None \<rparr>"

definition sample_session :: WorkingFile where
  "sample_session =
     \<lparr> fileId = ''abc123'', fileName = Some ''Design System'',
       url = ''https://www.figma.com/file/abc123/Design-System'',
       setAt = 0, lastAccessed = 0, componentCount = None,
       implementationStatus = [(''1:1'', sample_status ''1:1'' Implemented 1000)] \<rparr>"

definition sample_sessions :: sessions where
  "sample_sessions = [''client'' \<mapsto> sample_session]"

definition sample_item :: "string \<Rightarrow> ComponentListItem" where
  "sample_item cid =
     \<lparr> cli_id = cid, cli_name = ''Button'', cli_type = COMPONENT, cli_variantCount = None,
       cli_lastModified = ''2024-01-01T00:00:00Z'', cli_published = True \<rparr>"

subsection \<open>Implementation summary\<close>

text \<open>
  \<open>Math.round((implemented / total) * 100)\<close> is computed in IEEE 754 double precision:
  the quotient is rounded to the nearest double, so is its product with 100, and
  \<open>Math.round\<close> then rounds half up. The counts are natural numbers far below \<open>2 ^ 53\<close>, so
  every intermediate result is a positive normal double or zero, held here as an exact
  fraction of natural numbers. \<open>fl p q\<close> is the double nearest to \<open>p / q\<close> (ties to even):
  a 53-bit significand \<open>m\<close> and an exponent \<open>e\<close> with value \<open>m * 2 ^ e\<close>.
\<close>

fun bitlen :: "nat \<Rightarrow> nat" where
  "bitlen n = (if n = 0 then 0 else Suc (bitlen (n div 2)))"

declare bitlen.simps [simp del]

definition round_half_even :: "nat \<Rightarrow> nat \<Rightarrow> nat" where
  "round_half_even n d =
     (let q = n div d; r = n mod d
      in if 2 * r < d then q else if d < 2 * r then q + 1
         else if even q then q else q + 1)"

definition ilog2 :: "nat \<Rightarrow> nat \<Rightarrow> int" where
  "ilog2 p q =
     (let d = int (bitlen p) - int (bitlen q)
      in if (if 0 \<le> d then q * 2 ^ nat d \<le> p else q \<le> p * 2 ^ nat (- d)) then d else d - 1)"

definition fl :: "nat \<Rightarrow> nat \<Rightarrow> nat \<times> nat" where
  "fl p q =
     (if p = 0 then (0, 1)
      else (let e = ilog2 p q - 52
            in if 0 \<le> e then (round_half_even p (q * 2 ^ nat e) * 2 ^ nat e, 1)
               else (round_half_even (p * 2 ^ nat (- e)) q, 2 ^ nat (- e))))"

definition Math_round :: "nat \<times> nat \<Rightarrow> nat" where
  "Math_round x = (2 * fst x + snd x) div (2 * snd x)"

definition percentage :: "nat \<Rightarrow> nat \<Rightarrow> nat" where
  "percentage a b = (let x = fl a b; y = fl (fst x * 100) (snd x) in Math_round y)"

record summary_stats =
  st_total :: nat
  st_pending :: nat
  st_inProgress :: nat
  st_implemented :: nat
  st_needsUpdate :: nat
  st_completionPercentage :: nat

record implementation_summary =
  hasWorkingFile :: bool
  workingFile :: "WorkingFile option"
  stats :: summary_stats

definition count_status :: "ComponentImplementationStatus list \<Rightarrow> status \<Rightarrow> nat" where
  "count_status statuses st = length (filter (\<lambda>s. status s = st) statuses)"

definition getImplementationSummary ::
  "sessions \<Rightarrow> string \<Rightarrow> int \<Rightarrow> int \<Rightarrow> implementation_summary \<times> sessions" where
  "getImplementationSummary ss clientId now accessed =
     (case getWorkingFile ss clientId now accessed of
        (None, ss') \<Rightarrow>
          (\<lparr> hasWorkingFile = False, workingFile = None,
             stats = \<lparr> st_total = 0, st_pending = 0, st_inProgress = 0, st_implemented = 0,
                       st_needsUpdate = 0, st_completionPercentage = 0 \<rparr> \<rparr>, ss')
      | (Some session, ss') \<Rightarrow>
          (let statuses = map_values (implementationStatus session)
           in (\<lparr> hasWorkingFile = True, workingFile = Some session,
                 stats = \<lparr> st_total = length statuses,
                           st_pending = count_status statuses Pending,
                           st_inProgress = count_status statuses InProgress,
                           st_implemented = count_status statuses Implemented,
                           st_needsUpdate = count_status statuses NeedsUpdate,
                           st_completionPercentage =
                             (if length statuses > 0
                              then percentage (count_status statuses Implemented) (length statuses)
                              else 0) \<rparr> \<rparr>, ss')))"

text \<open>
  What the session table holds as \<open>implementedAt\<close> for a component of a client.
\<close>

definition implementedAt_of :: "sessions \<Rightarrow> string \<Rightarrow> string \<Rightarrow> int option" where
  "implementedAt_of ss clientId cid =
     (case ss clientId of
        None \<Rightarrow> None
      | Some session \<Rightarrow>
          (case map_get (implementationStatus session) cid of
             None \<Rightarrow> None
           | Some e \<Rightarrow> implementedAt e))"

section \<open>Cache (services/cache.ts)\<close>

text \<open>
  Modelled from the spec: \<open>LRUCache\<close> of the \<open>lru-cache\<close> package, a dependency that is not
  part of the sources. The options the service passes are \<open>max\<close>, \<open>ttl\<close>,
  \<open>updateAgeOnGet: true\<close> and \<open>allowStale: false\<close>: a store bounded by \<open>max\<close> entries that
  evicts the least recently used one on insertion past capacity, whose \<open>get\<close> drops an entry
  older than \<open>ttl\<close> and otherwise marks it most recently used and restarts its age. The
  items are kept most recently used first, each with the time its age started. The
  constructor refuses a \<open>max\<close> or \<open>ttl\<close> that is not a positive integer. One clock, in
  milliseconds, serves the store and the service.
\<close>

record 'a CacheEntry =
  data :: 'a
  timestamp :: int
  ttl :: int

record 'v LRUCache =
  lru_max :: nat
  lru_ttl :: int
  lru_items :: "(string \<times> 'v \<times> int) list"

definition lru_new :: "int \<Rightarrow> int \<Rightarrow> 'v LRUCache option" where
  "lru_new max_arg ttl_arg =
     (if 0 < max_arg \<and> 0 < ttl_arg
      then Some \<lparr> lru_max = nat max_arg, lru_ttl = ttl_arg, lru_items = [] \<rparr>
      else None)"

definition lru_remove :: "string \<Rightarrow> (string \<times> 'v \<times> int) list \<Rightarrow> (string \<times> 'v \<times> int) list" where
  "lru_remove k items = filter (\<lambda>item. fst item \<noteq> k) items"

definition lru_delete :: "'v LRUCache \<Rightarrow> string \<Rightarrow> 'v LRUCache" where
  "lru_delete c k = c\<lparr>lru_items := lru_remove k (lru_items c)\<rparr>"

definition lru_get :: "'v LRUCache \<Rightarrow> string \<Rightarrow> int \<Rightarrow> 'v option \<times> 'v LRUCache" where
  "lru_get c k now =
     (case map_of (lru_items c) k of
        None \<Rightarrow> (None, c)
      | Some (v, start) \<Rightarrow>
          if now - start > lru_ttl c then (None, lru_delete c k)
          else (Some v, c\<lparr>lru_items := (k, v, now) # lru_remove k (lru_items c)\<rparr>))"

definition lru_set :: "'v LRUCache \<Rightarrow> string \<Rightarrow> 'v \<Rightarrow> int \<Rightarrow> 'v LRUCache" where
  "lru_set c k v now =
     (let items = (k, v, now) # lru_remove k (lru_items c)
      in c\<lparr>lru_items := (if length items > lru_max c then butlast items else items)\<rparr>)"

record cache_options =
  maxSize :: "int option"
  opt_defaultTtl :: "int option"

record 'a CacheService =
  memoryCache :: "'a CacheEntry LRUCache"
  defaultTtl :: int

text \<open>\<open>x || d\<close> on an optional number: absent and 0 give the default.\<close>

definition or_number :: "int option \<Rightarrow> int \<Rightarrow> int" where
  "or_number x d = (case x of None \<Rightarrow> d | Some n \<Rightarrow> if n = 0 then d else n)"

definition new_CacheService :: "cache_options \<Rightarrow> 'a CacheService option" where
  "new_CacheService options =
     (let dflt = or_number (opt_defaultTtl options) 3600000
      in case lru_new (or_number (maxSize options) 1000) dflt of
           None \<Rightarrow> None
         | Some m \<Rightarrow> Some \<lparr> memoryCache = m, defaultTtl = dflt \<rparr>)"

definition isExpired :: "'a CacheEntry \<Rightarrow> int \<Rightarrow> bool" where
  "isExpired entry now \<longleftrightarrow> now - timestamp entry > ttl entry"

text \<open>The result \<open>None\<close> is the \<open>null\<close> that \<open>get\<close> returns.\<close>

definition cache_get :: "'a CacheService \<Rightarrow> string \<Rightarrow> int \<Rightarrow> 'a option \<times> 'a CacheService" where
  "cache_get cache key now =
     (case lru_get (memoryCache cache) key now of
        (None, m) \<Rightarrow> (None, cache\<lparr>memoryCache := m\<rparr>)
      | (Some entry, m) \<Rightarrow>
          if isExpired entry now then (None, cache\<lparr>memoryCache := lru_delete m key\<rparr>)
          else (Some (data entry), cache\<lparr>memoryCache := m\<rparr>))"

definition cache_set :: "'a CacheService \<Rightarrow> string \<Rightarrow> 'a \<Rightarrow> int option \<Rightarrow> int \<Rightarrow> 'a CacheService" where
  "cache_set cache key d ttl_arg now =
     (let entry = \<lparr> data = d, timestamp = now, ttl = or_number ttl_arg (defaultTtl cache) \<rparr>
      in cache\<lparr>memoryCache := lru_set (memoryCache cache) key entry now\<rparr>)"

definition cache_has :: "'a CacheService \<Rightarrow> string \<Rightarrow> int \<Rightarrow> bool \<times> 'a CacheService" where
  "cache_has cache key now =
     (case lru_get (memoryCache cache) key now of
        (None, m) \<Rightarrow> (False, cache\<lparr>memoryCache := m\<rparr>)
      | (Some entry, m) \<Rightarrow>
          if isExpired entry now then (False, cache\<lparr>memoryCache := lru_delete m key\<rparr>)
          else (True, cache\<lparr>memoryCache := m\<rparr>))"

definition cache_delete :: "'a CacheService \<Rightarrow> string \<Rightarrow> 'a CacheService" where
  "cache_delete cache key = cache\<lparr>memoryCache := lru_delete (memoryCache cache) key\<rparr>"

text \<open>A cache as the tests build it: 100 entries, default TTL one second.\<close>

definition sample_cache :: "string CacheService" where
  "sample_cache =
     \<lparr> memoryCache = \<lparr> lru_max = 100, lru_ttl = 1000, lru_items = [] \<rparr>, defaultTtl = 1000 \<rparr>"

section \<open>Strings\<close>

text \<open>
  Strings are lists of 8-bit characters; the names and patterns the extractors look at are
  ASCII, and \<open>toLowerCase\<close> maps the letters A to Z and leaves every other character as it
  is. \<open>includes_str\<close> (the method \<open>includes\<close>), \<open>startsWith\<close> and \<open>endsWith\<close> are the
  JavaScript string methods.
\<close>

definition lower_char :: "char \<Rightarrow> char" where
  "lower_char c =
     (case map_of (zip ''ABCDEFGHIJKLMNOPQRSTUVWXYZ'' ''abcdefghijklmnopqrstuvwxyz'') c of
        None \<Rightarrow> c
      | Some l \<Rightarrow> l)"

definition toLowerCase :: "string \<Rightarrow> string" where
  "toLowerCase s = map lower_char s"

fun startsWith :: "string \<Rightarrow> string \<Rightarrow> bool" where
  "startsWith s [] = True"
| "startsWith [] (c # p) = False"
| "startsWith (d # s) (c # p) = (d = c \<and> startsWith s p)"

definition endsWith :: "string \<Rightarrow> string \<Rightarrow> bool" where
  "endsWith s p = startsWith (rev s) (rev p)"

fun includes_str :: "string \<Rightarrow> string \<Rightarrow> bool" where
  "includes_str [] p = (p = [])"
| "includes_str (c # s) p = (startsWith (c # s) p \<or> includes_str s p)"

section \<open>State inference (extractors/component.ts)\<close>

definition statePatterns :: "string list" where
  "statePatterns =
     [''hover'', ''focus'', ''active'', ''pressed'', ''disabled'', ''selected'', ''loading'',
      ''error'', ''success'', ''warning'', ''visited'']"

text \<open>The test of one pattern in the loop of \<open>parseStateFromLayerName\<close>.\<close>

definition pattern_hit :: "string \<Rightarrow> string \<Rightarrow> bool" where
  "pattern_hit name pattern \<longleftrightarrow>
     name = pattern
     \<or> includes_str name pattern
     \<or> includes_str name (''state='' @ pattern)
     \<or> includes_str name (''_'' @ pattern)
     \<or> includes_str name (''-'' @ pattern)
     \<or> includes_str name (pattern @ ''_'')
     \<or> includes_str name (pattern @ ''-'')
     \<or> startsWith name (pattern @ '':'')
     \<or> endsWith name ('':'' @ pattern)"

fun scan_patterns :: "string \<Rightarrow> string list \<Rightarrow> string option" where
  "scan_patterns name [] = None"
| "scan_patterns name (pattern # rest) =
     (if pattern_hit name pattern then Some pattern else scan_patterns name rest)"

text \<open>
  \<open>name.match(/state=([^,\s]+)/)\<close>: the leftmost \<open>state=\<close> that is followed by at least one
  character other than a comma or white space, and the longest run of such characters
  after it.
\<close>

definition white_space :: "char \<Rightarrow> bool" where
  "white_space c \<longleftrightarrow> c \<in> set [CHR '' '', CHR 0x09, CHR 0x0A, CHR 0x0B, CHR 0x0C, CHR 0x0D]"

definition value_char :: "char \<Rightarrow> bool" where
  "value_char c \<longleftrightarrow> c \<noteq> CHR '','' \<and> \<not> white_space c"

fun match_state :: "string \<Rightarrow> string option" where
  "match_state [] = None"
| "match_state (c # s) =
     (if startsWith (c # s) ''state='' \<and> takeWhile value_char (drop 6 (c # s)) \<noteq> []
      then Some (takeWhile value_char (drop 6 (c # s)))
      else match_state s)"

definition parseStateFromLayerName :: "string \<Rightarrow> string list \<Rightarrow> string option" where
  "parseStateFromLayerName layerName patterns =
     (let name = toLowerCase layerName
      in case scan_patterns name patterns of
           Some pattern \<Rightarrow> Some pattern
         | None \<Rightarrow>
             if includes_str name ''state=''
             then (case match_state name of
                     None \<Rightarrow> None
                   | Some m \<Rightarrow> if m \<in> set patterns then Some m else None)
             else None)"

section \<open>Tree traversal (extractors/component.ts)\<close>

text \<open>
  A document is what \<open>response.json()\<close> parses: a finite tree of nodes. An absent
  \<open>children\<close> array is the empty list; both traversals treat the two alike.
\<close>

datatype FigmaNode =
  Node (node_id: string) (node_name: string) (node_type: string) (node_children: "FigmaNode list")

text \<open>A \<open>for\<close> loop that returns the first result that is not null.\<close>

fun first_some :: "('a \<Rightarrow> 'b option) \<Rightarrow> 'a list \<Rightarrow> 'b option" where
  "first_some f [] = None"
| "first_some f (x # xs) = (case f x of Some y \<Rightarrow> Some y | None \<Rightarrow> first_some f xs)"

lemma first_some_cong [fundef_cong]:
  "xs = ys \<Longrightarrow> (\<And>x. x \<in> set ys \<Longrightarrow> f x = g x) \<Longrightarrow> first_some f xs = first_some g ys"
  by (induction ys arbitrary: xs) (auto split: option.splits)

fun findInNode :: "string \<Rightarrow> FigmaNode \<Rightarrow> FigmaNode option" where
  "findInNode wantedId (Node i n ty cs) =
     (if i = wantedId then Some (Node i n ty cs)
      else first_some (findInNode wantedId) cs)"

definition countVariants :: "'a list \<Rightarrow> nat" where
  "countVariants cs = length cs"

text \<open>What \<open>traverse\<close> pushes for a node: one item for a component or component set.\<close>

definition list_item :: "string \<Rightarrow> string \<Rightarrow> string \<Rightarrow> string \<Rightarrow> nat \<Rightarrow> ComponentListItem list" where
  "list_item fileLastModified i n ty nchildren =
     (if ty = ''COMPONENT'' then
        [\<lparr> cli_id = i, cli_name = n, cli_type = COMPONENT, cli_variantCount = None,
           cli_lastModified = fileLastModified, cli_published = True \<rparr>]
      else if ty = ''COMPONENT_SET'' then
        [\<lparr> cli_id = i, cli_name = n, cli_type = COMPONENT_SET,
           cli_variantCount = Some nchildren,
           cli_lastModified = fileLastModified, cli_published = True \<rparr>]
      else [])"

fun traverse :: "string \<Rightarrow> FigmaNode \<Rightarrow> ComponentListItem list" where
  "traverse fileLastModified (Node i n ty cs) =
     list_item fileLastModified i n ty (countVariants cs)
     @ concat (map (traverse fileLastModified) cs)"

record FigmaFile =
  document :: FigmaNode
  file_lastModified :: string

definition findComponentInFile :: "FigmaFile \<Rightarrow> string \<Rightarrow> FigmaNode option" where
  "findComponentInFile file wantedId = findInNode wantedId (document file)"

definition extractComponentList :: "FigmaFile \<Rightarrow> ComponentListItem list" where
  "extractComponentList file = traverse (file_lastModified file) (document file)"

text \<open>The nodes of a tree in pre-order, each once.\<close>

fun preorder :: "FigmaNode \<Rightarrow> FigmaNode list" where
  "preorder (Node i n ty cs) = Node i n ty cs # concat (map preorder cs)"

subsection \<open>The same traversals over an object graph\<close>

text \<open>
  To speak of back-references the nodes are objects in a store, addressed by references,
  and \<open>children\<close> holds references: a node may then be its own descendant, or the child of
  two parents. The recursion of the source is the same; since it may not return, its result
  is an option, \<open>None\<close> when the traversal never ends. A list of references stands for the
  nodes still to visit: the children of a node, then its later siblings.
\<close>

record node_obj =
  obj_id :: string
  obj_name :: string
  obj_type :: string
  obj_children :: "nat list"

type_synonym store = "nat \<Rightarrow> node_obj"

partial_function (option) findInNodes_store :: "store \<Rightarrow> string \<Rightarrow> nat list \<Rightarrow> nat option option" where
  "findInNodes_store h wantedId rs =
     (case rs of
        [] \<Rightarrow> Some None
      | r # rest \<Rightarrow>
          if obj_id (h r) = wantedId then Some (Some r)
          else Option.bind (findInNodes_store h wantedId (obj_children (h r)))
                 (\<lambda>found. case found of
                      Some f \<Rightarrow> Some (Some f)
                    | None \<Rightarrow> findInNodes_store h wantedId rest))"

partial_function (option) traverse_store :: "store \<Rightarrow> string \<Rightarrow> nat list \<Rightarrow> ComponentListItem list option" where
  "traverse_store h fileLastModified rs =
     (case rs of
        [] \<Rightarrow> Some []
      | r # rest \<Rightarrow>
          Option.bind (traverse_store h fileLastModified (obj_children (h r)))
            (\<lambda>below. Option.bind (traverse_store h fileLastModified rest)
               (\<lambda>after. Some (list_item fileLastModified (obj_id (h r)) (obj_name (h r))
                                 (obj_type (h r)) (countVariants (obj_children (h r)))
                               @ below @ after))))"

text \<open>The object at \<open>r\<close> of the store and everything below it form the tree \<open>t\<close>.\<close>

inductive unfolds :: "store \<Rightarrow> nat \<Rightarrow> FigmaNode \<Rightarrow> bool" where
  "obj_id (h r) = i \<Longrightarrow> obj_name (h r) = n \<Longrightarrow> obj_type (h r) = ty
   \<Longrightarrow> list_all2 (unfolds h) (obj_children (h r)) cs
   \<Longrightarrow> unfolds h r (Node i n ty cs)"

definition leaf_obj :: node_obj where
  "leaf_obj = \<lparr> obj_id = ''0:0'', obj_name = ''Document'', obj_type = ''DOCUMENT'', obj_children = [] \<rparr>"

text \<open>A frame that is its own child.\<close>

definition cyclic_store :: store where
  "cyclic_store =
     (\<lambda>_. leaf_obj)(7 := \<lparr> obj_id = ''1:1'', obj_name = ''Frame'', obj_type = ''FRAME'',
                            obj_children = [7] \<rparr>)"

text \<open>A page with two frames that share one component.\<close>

definition shared_store :: store where
  "shared_store =
     (\<lambda>_. leaf_obj)
       (10 := \<lparr> obj_id = ''0:1'', obj_name = ''Page'', obj_type = ''CANVAS'', obj_children = [11, 12] \<rparr>,
        11 := \<lparr> obj_id = ''1:1'', obj_name = ''Frame A'', obj_type = ''FRAME'', obj_children = [13] \<rparr>,
        12 := \<lparr> obj_id = ''1:2'', obj_name = ''Frame B'', obj_type = ''FRAME'', obj_children = [13] \<rparr>,
        13 := \<lparr> obj_id = ''2:1'', obj_name = ''Button'', obj_type = ''COMPONENT'', obj_children = [] \<rparr>)"

text \<open>A page with a frame that holds a component, and the tree it is.\<close>

definition tree_store :: store where
  "tree_store =
     (\<lambda>_. leaf_obj)
       (10 := \<lparr> obj_id = ''0:1'', obj_name = ''Page'', obj_type = ''CANVAS'', obj_children = [11] \<rparr>,
        11 := \<lparr> obj_id = ''1:1'', obj_name = ''Frame A'', obj_type = ''FRAME'', obj_children = [13] \<rparr>,
        13 := \<lparr> obj_id = ''2:1'', obj_name = ''Button'', obj_type = ''COMPONENT'', obj_children = [] \<rparr>)"

definition sample_tree :: FigmaNode where
  "sample_tree =
     Node ''0:1'' ''Page'' ''CANVAS''
       [Node ''1:1'' ''Frame A'' ''FRAME'' [Node ''2:1'' ''Button'' ''COMPONENT'' []]]"

text \<open>What the listing holds for one node of the tree.\<close>

definition node_item :: "string \<Rightarrow> FigmaNode \<Rightarrow> ComponentListItem list" where
  "node_item fileLastModified node =
     list_item fileLastModified (node_id node) (node_name node) (node_type node)
       (countVariants (node_children node))"

definition sample_file :: FigmaFile where
  "sample_file = \<lparr> document = sample_tree, file_lastModified = ''2024-01-01T00:00:00Z'' \<rparr>"

text \<open>
  The search over the store ended with the result the search over the tree gives: null for
  null, and for a node the reference of an object that is that node.
\<close>

definition found_as :: "store \<Rightarrow> nat option option \<Rightarrow> FigmaNode option \<Rightarrow> bool" where
  "found_as h res expected =
     (case expected of
        None \<Rightarrow> res = Some None
      | Some t \<Rightarrow> (\<exists>r. res = Some (Some r) \<and> unfolds h r t))"

section \<open>Numbers\<close>

text \<open>
  A number of a design document is modelled by the decimal numeral that denotes it: \<open>Dec m e\<close>
  is \<open>m * 10 ^ e\<close>, the shortest numeral that reads back as the same double, which is the
  one \<open>JSON.stringify\<close> writes and \<open>String(x)\<close> prints. \<open>Math.round\<close> of such a number is exact;
  a product is rounded to the nearest double with \<open>fl\<close> above (normal range). Not-a-number
  does not occur in a JSON document and is not modelled.
\<close>

datatype jsnum = Dec (mantissa: int) (exponent: int)

definition is_zero :: "jsnum \<Rightarrow> bool" where
  "is_zero x \<longleftrightarrow> mantissa x = 0"


text \<open>\<open>Math.round\<close>: the nearest integer, a tie going up.\<close>

definition Math_round_num :: "jsnum \<Rightarrow> int" where
  "Math_round_num x =
     (if 0 \<le> exponent x then mantissa x * 10 ^ nat (exponent x)
      else (2 * mantissa x + 10 ^ nat (- exponent x)) div (2 * 10 ^ nat (- exponent x)))"

text \<open>\<open>Math.round(c * 255)\<close> for a colour channel \<open>c\<close>.\<close>

definition round_channel :: "jsnum \<Rightarrow> int" where
  "round_channel c =
     (let p = (if 0 \<le> exponent c then nat \<bar>mantissa c\<bar> * 10 ^ nat (exponent c)
               else nat \<bar>mantissa c\<bar>);
          q = (if 0 \<le> exponent c then 1 else 10 ^ nat (- exponent c));
          d = fl p q;
          y = fl (fst d * 255) (snd d)
      in if 0 \<le> mantissa c then (2 * int (fst y) + int (snd y)) div (2 * int (snd y))
         else (int (snd y) - 2 * int (fst y)) div (2 * int (snd y)))"

definition digit_char :: "nat \<Rightarrow> char" where
  "digit_char d = ''0123456789abcdef'' ! d"

fun digits :: "nat \<Rightarrow> nat \<Rightarrow> string" where
  "digits radix n =
     (if radix < 2 \<or> n < radix then [digit_char n]
      else digits radix (n div radix) @ [digit_char (n mod radix)])"

declare digits.simps [simp del]

text \<open>An integer in a template literal, and \<open>n.toString(16)\<close>.\<close>

definition int_toString :: "nat \<Rightarrow> int \<Rightarrow> string" where
  "int_toString radix n = (if n < 0 then ''-'' else []) @ digits radix (nat \<bar>n\<bar>)"





section \<open>Effects (extractors/component.ts)\<close>

record RGBA =
  rgba_r :: jsnum
  rgba_g :: jsnum
  rgba_b :: jsnum
  rgba_a :: "jsnum option"




















section \<open>Token synthesis (extractors/tokens.ts)\<close>

text \<open>
  The values a variable carries per mode: undefined stands for a missing property, a colour
  is an object with numeric channels \<open>r\<close>, \<open>g\<close> and \<open>b\<close>, and \<open>VObject\<close> is an object that has
  none of these channels (an alias to another variable, for one), kept as its own
  properties. The modes of \<open>valuesByMode\<close> are its own properties: names inherited from
  \<open>Object.prototype\<close> are not mode identifiers.
\<close>

datatype jsvalue =
    VUndefined
  | VNull
  | VBool bool
  | VNumber jsnum
  | VString string
  | VColor RGBA
  | VObject "(string \<times> jsvalue) list"

text \<open>\<open>!value\<close>.\<close>

fun falsy :: "jsvalue \<Rightarrow> bool" where
  "falsy VUndefined = True"
| "falsy VNull = True"
| "falsy (VBool b) = (\<not> b)"
| "falsy (VNumber n) = is_zero n"
| "falsy (VString s) = (s = [])"
| "falsy (VColor c) = False"
| "falsy (VObject props) = False"

datatype js_error = TypeError

record Variable =
  var_id :: string
  var_name :: string
  variableCollectionId :: string
  resolvedType :: string
  valuesByMode :: "(string \<times> jsvalue) list option"
  var_description :: "string option"

record VariableCollection =
  col_id :: string
  col_name :: "string option"
  defaultModeId :: "string option"
  col_modes :: "string list option"

record DesignToken =
  tok_name :: string
  tok_value :: jsvalue
  tok_type :: string
  tok_description :: "string option"
  tok_category :: "string option"
  tok_usage :: "string list option"
  tok_collectionName :: "string option"
  tok_variableId :: "string option"
  tok_modes :: "(string \<times> jsvalue) list option"

definition slug_char :: "char \<Rightarrow> char" where
  "slug_char c = (if c \<in> set ''abcdefghijklmnopqrstuvwxyz0123456789'' then c else CHR ''-'')"

fun collapse_dashes :: "string \<Rightarrow> string" where
  "collapse_dashes [] = []"
| "collapse_dashes [c] = [c]"
| "collapse_dashes (c # d # s) =
     (if c = CHR ''-'' \<and> d = CHR ''-'' then collapse_dashes (d # s)
      else c # collapse_dashes (d # s))"

definition strip_dash_start :: "string \<Rightarrow> string" where
  "strip_dash_start s = (case s of [] \<Rightarrow> [] | c # t \<Rightarrow> if c = CHR ''-'' then t else s)"

definition strip_dash_end :: "string \<Rightarrow> string" where
  "strip_dash_end s = rev (strip_dash_start (rev s))"

definition normalizeTokenName :: "string \<Rightarrow> string" where
  "normalizeTokenName name =
     strip_dash_end (strip_dash_start (collapse_dashes (map slug_char (toLowerCase name))))"

definition padStart2 :: "string \<Rightarrow> string" where
  "padStart2 s = replicate (2 - length s) CHR ''0'' @ s"

definition rgbaToHex :: "RGBA \<Rightarrow> string" where
  "rgbaToHex rgba =
     ''#'' @ padStart2 (int_toString 16 (round_channel (rgba_r rgba)))
     @ padStart2 (int_toString 16 (round_channel (rgba_g rgba)))
     @ padStart2 (int_toString 16 (round_channel (rgba_b rgba)))"

text \<open>
  \<open>rgbaToHex\<close> applied to whatever a mode holds: reading \<open>.r\<close> of null or undefined throws,
  and of a value without channels gives undefined, which rounds to \<open>NaN\<close>.
\<close>

fun rgbaToHex_value :: "jsvalue \<Rightarrow> js_error + string" where
  "rgbaToHex_value VUndefined = Inl TypeError"
| "rgbaToHex_value VNull = Inl TypeError"
| "rgbaToHex_value (VColor c) = Inr (rgbaToHex c)"
| "rgbaToHex_value v = Inr ''#NaNNaNNaN''"

definition processVariableValue :: "jsvalue \<Rightarrow> string \<Rightarrow> js_error + jsvalue" where
  "processVariableValue v ty =
     (if ty = ''COLOR''
      then (case rgbaToHex_value v of Inl e \<Rightarrow> Inl e | Inr h \<Rightarrow> Inr (VString h))
      else Inr v)"

definition mapVariableTypeToTokenType :: "string \<Rightarrow> string" where
  "mapVariableTypeToTokenType ty =
     (if ty = ''COLOR'' then ''color''
      else if ty = ''FLOAT'' then ''spacing''
      else if ty = ''STRING'' then ''content''
      else if ty = ''BOOLEAN'' then ''boolean''
      else ''unknown'')"

definition categoryMap :: "(string \<times> string list) list" where
  "categoryMap =
     [(''primary'', [''primary'', ''main'', ''brand'']),
      (''secondary'', [''secondary'', ''accent'']),
      (''neutral'', [''neutral'', ''gray'', ''grey'', ''black'', ''white'']),
      (''semantic'', [''success'', ''error'', ''warning'', ''info'', ''danger'']),
      (''text'', [''text'', ''foreground'', ''content'']),
      (''background'', [''background'', ''surface'', ''backdrop'']),
      (''border'', [''border'', ''outline'', ''stroke''])]"

definition inferColorCategory :: "string \<Rightarrow> string" where
  "inferColorCategory name =
     (case List.find (\<lambda>entry. list_ex (includes_str (toLowerCase name)) (snd entry)) categoryMap of
        Some entry \<Rightarrow> fst entry
      | None \<Rightarrow> ''miscellaneous'')"

definition inferVariableCategory :: "string \<Rightarrow> string \<Rightarrow> string" where
  "inferVariableCategory name ty =
     (let lowercaseName = toLowerCase name
      in if ty = ''COLOR'' then inferColorCategory name
         else if ty = ''FLOAT'' then
           (if includes_str lowercaseName ''spacing'' \<or> includes_str lowercaseName ''gap''
               \<or> includes_str lowercaseName ''margin'' \<or> includes_str lowercaseName ''padding''
            then ''spacing''
            else if includes_str lowercaseName ''border'' \<or> includes_str lowercaseName ''stroke''
            then ''border''
            else if includes_str lowercaseName ''radius'' \<or> includes_str lowercaseName ''corner''
            then ''radius''
            else ''dimension'')
         else if ty = ''STRING'' then
           (if includes_str lowercaseName ''font'' \<or> includes_str lowercaseName ''family''
            then ''font-family''
            else ''content'')
         else ''miscellaneous'')"

fun processModes :: "(string \<times> jsvalue) list \<Rightarrow> string \<Rightarrow> js_error + (string \<times> jsvalue) list" where
  "processModes [] ty = Inr []"
| "processModes ((modeId, v) # rest) ty =
     (case processVariableValue v ty of
        Inl e \<Rightarrow> Inl e
      | Inr v' \<Rightarrow>
          (case processModes rest ty of
             Inl e \<Rightarrow> Inl e
           | Inr rest' \<Rightarrow> Inr ((modeId, v') # rest')))"

text \<open>
  \<open>collection?.defaultModeId || collection?.modes?.[0]?.modeId\<close>, and the property of
  \<open>valuesByMode\<close> it selects; an undefined mode id reads the property named \<open>undefined\<close>, and
  a property that is not there reads as undefined.
\<close>

definition default_mode :: "VariableCollection option \<Rightarrow> string option" where
  "default_mode collection =
     (case collection of
        None \<Rightarrow> None
      | Some c \<Rightarrow>
          or_string (defaultModeId c)
            (case col_modes c of None \<Rightarrow> None | Some [] \<Rightarrow> None | Some (m # _) \<Rightarrow> Some m))"

definition mode_values :: "Variable \<Rightarrow> (string \<times> jsvalue) list" where
  "mode_values variable = (case valuesByMode variable of None \<Rightarrow> [] | Some vs \<Rightarrow> vs)"

definition default_value :: "Variable \<Rightarrow> (string, VariableCollection) jsmap \<Rightarrow> jsvalue" where
  "default_value variable collectionsMap =
     (let key = (case default_mode (map_get collectionsMap (variableCollectionId variable)) of
                   None \<Rightarrow> ''undefined'' | Some k \<Rightarrow> k)
      in case map_of (mode_values variable) key of None \<Rightarrow> VUndefined | Some v \<Rightarrow> v)"

definition convertVariableToToken ::
  "Variable \<Rightarrow> (string, VariableCollection) jsmap \<Rightarrow> js_error + DesignToken option" where
  "convertVariableToToken variable collectionsMap =
     (let collection = map_get collectionsMap (variableCollectionId variable);
          collectionName =
            (case or_string (case collection of None \<Rightarrow> None | Some c \<Rightarrow> col_name c) None of
               None \<Rightarrow> ''unknown'' | Some n \<Rightarrow> n);
          defaultValue = default_value variable collectionsMap
      in if falsy defaultValue then Inr None
         else (case processVariableValue defaultValue (resolvedType variable) of
                 Inl e \<Rightarrow> Inl e
               | Inr v \<Rightarrow>
                   (case (if length (mode_values variable) > 1
                          then map_sum id Some (processModes (mode_values variable)
                                                  (resolvedType variable))
                          else Inr None) of
                      Inl e \<Rightarrow> Inl e
                    | Inr ms \<Rightarrow>
                        Inr (Some \<lparr> tok_name = normalizeTokenName
                                                    (collectionName @ ''-'' @ var_name variable),
                                     tok_value = v,
                                     tok_type = mapVariableTypeToTokenType (resolvedType variable),
                                     tok_description = or_string (var_description variable) None,
                                     tok_category = Some (inferVariableCategory (var_name variable)
                                                            (resolvedType variable)),
                                     tok_usage = None,
                                     tok_collectionName = Some collectionName,
                                     tok_variableId = Some (var_id variable),
                                     tok_modes = ms \<rparr>))))"

record variables_metadata =
  variablesAvailable :: bool
  variablesMessage :: "string option"
  planRequired :: "string option"

record TokenCollection =
  tc_colors :: "DesignToken list"
  tc_typography :: "DesignToken list"
  tc_spacing :: "DesignToken list"
  tc_effects :: "DesignToken list"
  tc_variables :: "DesignToken list"
  tc_metadata :: "variables_metadata option"

datatype token_bucket = Colors | Typography | Spacing | Effects

definition push_token :: "TokenCollection \<Rightarrow> token_bucket \<Rightarrow> DesignToken \<Rightarrow> TokenCollection" where
  "push_token tokens bucket_name token =
     (case bucket_name of
        Colors \<Rightarrow> tokens\<lparr>tc_colors := tc_colors tokens @ [token]\<rparr>
      | Typography \<Rightarrow> tokens\<lparr>tc_typography := tc_typography tokens @ [token]\<rparr>
      | Spacing \<Rightarrow> tokens\<lparr>tc_spacing := tc_spacing tokens @ [token]\<rparr>
      | Effects \<Rightarrow> tokens\<lparr>tc_effects := tc_effects tokens @ [token]\<rparr>)"

definition getCollectionFromCategory :: "string \<Rightarrow> token_bucket option" where
  "getCollectionFromCategory category =
     map_of [(''primary'', Colors), (''secondary'', Colors), (''neutral'', Colors),
             (''semantic'', Colors), (''text'', Colors), (''background'', Colors),
             (''border'', Colors), (''spacing'', Spacing), (''dimension'', Spacing),
             (''radius'', Spacing), (''font-family'', Typography), (''shadows'', Effects),
             (''blur'', Effects), (''glow'', Effects)] category"

definition getCollectionFromTokenType :: "string \<Rightarrow> token_bucket option" where
  "getCollectionFromTokenType ty =
     map_of [(''color'', Colors), (''typography'', Typography), (''spacing'', Spacing),
             (''effect'', Effects), (''content'', Spacing), (''boolean'', Spacing),
             (''unknown'', Spacing)] ty"

text \<open>
  The conversion of one legacy style (\<open>convertStyleToToken\<close>) is a parameter of
  \<open>processStylesAndVariables\<close>: a token, null, or an exception, which the loop catches.
\<close>

definition style_step ::
  "('style \<Rightarrow> js_error + DesignToken option) \<Rightarrow> TokenCollection \<Rightarrow> 'style \<Rightarrow> TokenCollection" where
  "style_step convertStyleToToken tokens style =
     (case convertStyleToToken style of
        Inr (Some token) \<Rightarrow>
          (case getCollectionFromTokenType (tok_type token) of
             Some target \<Rightarrow> push_token tokens target token
           | None \<Rightarrow> tokens)
      | _ \<Rightarrow> tokens)"

definition variable_step ::
  "(string, VariableCollection) jsmap \<Rightarrow> TokenCollection \<Rightarrow> Variable \<Rightarrow> TokenCollection" where
  "variable_step collectionsMap tokens variable =
     (case convertVariableToToken variable collectionsMap of
        Inr (Some token) \<Rightarrow>
          (let tokens' = tokens\<lparr>tc_variables := tc_variables tokens @ [token]\<rparr>
           in case or_string (tok_category token) None of
                None \<Rightarrow> tokens'
              | Some category \<Rightarrow>
                  (case getCollectionFromCategory category of
                     Some target \<Rightarrow> push_token tokens' target token
                   | None \<Rightarrow> tokens'))
      | _ \<Rightarrow> tokens)"

definition processStylesAndVariables ::
  "('style \<Rightarrow> js_error + DesignToken option) \<Rightarrow> 'style list \<Rightarrow> Variable list
     \<Rightarrow> VariableCollection list \<Rightarrow> TokenCollection" where
  "processStylesAndVariables convertStyleToToken styles variables variableCollections =
     (let tokens = \<lparr> tc_colors = [], tc_typography = [], tc_spacing = [], tc_effects = [],
                      tc_variables = [],
                      tc_metadata = Some \<lparr> variablesAvailable = True, variablesMessage = None,
                                            planRequired = None \<rparr> \<rparr>;
          tokens1 = foldl (style_step convertStyleToToken) tokens styles;
          collectionsMap = foldl (\<lambda>m c. map_set m (col_id c) c) [] variableCollections
      in foldl (variable_step collectionsMap) tokens1 variables)"

definition filterTokenTypes :: "TokenCollection \<Rightarrow> string list \<Rightarrow> TokenCollection" where
  "filterTokenTypes tokens tokenTypes =
     (if ''all'' \<in> set tokenTypes then tokens
      else \<lparr> tc_colors = (if ''colors'' \<in> set tokenTypes then tc_colors tokens else []),
             tc_typography = (if ''typography'' \<in> set tokenTypes then tc_typography tokens else []),
             tc_spacing = (if ''spacing'' \<in> set tokenTypes then tc_spacing tokens else []),
             tc_effects = (if ''effects'' \<in> set tokenTypes then tc_effects tokens else []),
             tc_variables = (if ''variables'' \<in> set tokenTypes then tc_variables tokens else []),
             tc_metadata = None \<rparr>)"

record ApiError =
  err_status :: "int option"
  err_message :: "string option"

datatype token_error = ValidationError | UpstreamError ApiError

text \<open>What the \<open>catch\<close> of the variables request stores in the process-wide variable.\<close>

definition variables_failure :: "ApiError \<Rightarrow> variables_metadata" where
  "variables_failure error =
     (let has = (\<lambda>part. case err_message error of None \<Rightarrow> False | Some m \<Rightarrow> includes_str m part)
      in if err_status error = Some 403 then
           (if has ''file_variables:read'' then
              \<lparr> variablesAvailable = False,
                variablesMessage =
                  Some ''Figma Variables require Enterprise plan. Using legacy styles only.'',
                planRequired = Some ''Enterprise'' \<rparr>
            else if has ''scope'' then
              \<lparr> variablesAvailable = False,
                variablesMessage =
                  Some ''Insufficient permissions for Variables API. May require Enterprise plan.'',
                planRequired = Some ''Enterprise'' \<rparr>
            else
              \<lparr> variablesAvailable = False,
                variablesMessage = Some ''Access denied to Variables API'',
                planRequired = None \<rparr>)
         else
           \<lparr> variablesAvailable = False,
             variablesMessage = Some ''Variables API temporarily unavailable'',
             planRequired = None \<rparr>)"

text \<open>
  The state \<open>extractTokens\<close> works on: the cache and the process-wide
  \<open>__figmaVariablesMetadata\<close>. The answers of the two requests to the design tool are
  arguments, an error standing for a rejected request.
\<close>

record token_state =
  ts_cache :: "TokenCollection CacheService"
  figmaVariablesMetadata :: "variables_metadata option"

definition designTokens_key :: "string \<Rightarrow> string" where
  "designTokens_key fileId_arg = ''tokens:'' @ fileId_arg"

definition tokenType_names :: "string list" where
  "tokenType_names = [''colors'', ''typography'', ''spacing'', ''effects'', ''variables'', ''all'']"

definition extractTokens ::
  "('style \<Rightarrow> js_error + DesignToken option) \<Rightarrow> token_state \<Rightarrow> string \<Rightarrow> string list
     \<Rightarrow> ApiError + 'style list \<Rightarrow> ApiError + Variable list \<times> VariableCollection list \<Rightarrow> int
     \<Rightarrow> (token_error + TokenCollection) \<times> token_state" where
  "extractTokens convertStyleToToken st fileId_arg tokenTypes stylesResponse variablesResponse now =
     (if fileId_arg = [] \<or> \<not> set tokenTypes \<subseteq> set tokenType_names then (Inl ValidationError, st)
      else
        (case cache_get (ts_cache st) (designTokens_key fileId_arg) now of
           (Some cached, cache1) \<Rightarrow>
             (Inr (filterTokenTypes cached tokenTypes), st\<lparr>ts_cache := cache1\<rparr>)
         | (None, cache1) \<Rightarrow>
             (case stylesResponse of
                Inl error \<Rightarrow> (Inl (UpstreamError error), st\<lparr>ts_cache := cache1\<rparr>)
              | Inr styles \<Rightarrow>
                  (let fetched = (case variablesResponse of
                                    Inr vc \<Rightarrow> vc
                                  | Inl error \<Rightarrow> ([], []));
                       global = (case variablesResponse of
                                   Inr vc \<Rightarrow> figmaVariablesMetadata st
                                 | Inl error \<Rightarrow> Some (variables_failure error));
                       processed = processStylesAndVariables convertStyleToToken styles
                                     (fst fetched) (snd fetched);
                       tokens = (case global of
                                   None \<Rightarrow> processed
                                 | Some m \<Rightarrow> processed\<lparr>tc_metadata := Some m\<rparr>);
                       cache2 = cache_set cache1 (designTokens_key fileId_arg) tokens
                                  (Some 86400000) now;
                       filtered = filterTokenTypes tokens tokenTypes;
                       result = (case tc_metadata tokens of
                                   None \<Rightarrow> filtered
                                 | Some m \<Rightarrow> filtered\<lparr>tc_metadata := Some m\<rparr>)
                   in (Inr result, \<lparr> ts_cache = cache2, figmaVariablesMetadata = global \<rparr>)))))"

text \<open>Sample data: a boolean variable that is false in the default mode of its collection.\<close>

definition sample_collection :: VariableCollection where
  "sample_collection =
     \<lparr> col_id = ''VariableCollectionId:1:2'', col_name = Some ''Flags'',
       defaultModeId = Some ''1:0'', col_modes = Some [''1:0''] \<rparr>"

definition sample_variable :: "jsvalue \<Rightarrow> Variable" where
  "sample_variable v =
     \<lparr> var_id = ''VariableID:1:3'', var_name = ''Show Icon'',
       variableCollectionId = ''VariableCollectionId:1:2'', resolvedType = ''BOOLEAN'',
       valuesByMode = Some [(''1:0'', v)], var_description = None \<rparr>"

text \<open>
  Sample data: a state with an empty cache, a refused variables request, and one colour
  style that converts to one token.
\<close>

definition sample_token :: DesignToken where
  "sample_token =
     \<lparr> tok_name = ''primary-button-bg'', tok_value = VString ''#3366ff'', tok_type = ''color'',
       tok_description = None, tok_category = Some ''primary'', tok_usage = Some [''buttons''],
       tok_collectionName = None, tok_variableId = None, tok_modes = None \<rparr>"

definition sample_state :: token_state where
  "sample_state =
     \<lparr> ts_cache = \<lparr> memoryCache = \<lparr> lru_max = 1000, lru_ttl = 3600000, lru_items = [] \<rparr>,
                    defaultTtl = 3600000 \<rparr>,
       figmaVariablesMetadata = None \<rparr>"

definition sample_refusal :: ApiError where
  "sample_refusal =
     \<lparr> err_status = Some 403,
       err_message = Some ''Invalid scope(s): file_variables:read'' \<rparr>"

definition sample_convert :: "unit \<Rightarrow> js_error + DesignToken option" where
  "sample_convert style = Inr (Some sample_token)"

definition sample_tokens :: TokenCollection where
  "sample_tokens =
     \<lparr> tc_colors = [sample_token], tc_typography = [], tc_spacing = [], tc_effects = [],
       tc_variables = [], tc_metadata = Some (variables_failure sample_refusal) \<rparr>"

text \<open>
  A first request for the colours of a file, answered from the design tool while the
  variables request is refused, and a second request for the same file one second later.
\<close>

definition first_call :: "(token_error + TokenCollection) \<times> token_state" where
  "first_call =
     extractTokens sample_convert sample_state ''abc123'' [''colors'']
       (Inr [()]) (Inl sample_refusal) 0"

definition second_call :: "string list \<Rightarrow> (token_error + TokenCollection) \<times> token_state" where
  "second_call tokenTypes =
     extractTokens sample_convert (snd first_call) ''abc123'' tokenTypes
       (Inr [()]) (Inl sample_refusal) 1000"

section \<open>Properties of the session tracker\<close>

lemma map_get_map_set:
  "map_get (map_set m k v) k' = (if k' = k then Some v else map_get m k')"
  by (induction m) auto

text \<open>
  C9. For a client with a session, \<open>getWorkingFile\<close> returns null and deletes the session
  exactly when more than 24 hours (86400000 ms) have passed since \<open>setAt\<close>; otherwise it
  writes the current time to \<open>lastAccessed\<close>, stores and returns the session. \<open>setAt\<close> is
  never changed, so reading does not extend the session's lifetime.
\<close>

theorem getWorkingFile_expiry:
  assumes "ss clientId = Some session"
  shows "getWorkingFile ss clientId now accessed =
           (if now - setAt session > 86400000
            then (None, ss(clientId := None))
            else (Some (session\<lparr>lastAccessed := accessed\<rparr>),
                  ss(clientId \<mapsto> session\<lparr>lastAccessed := accessed\<rparr>)))
         \<and> (\<forall>s'. snd (getWorkingFile ss clientId now accessed) clientId = Some s'
                \<longrightarrow> setAt s' = setAt session)"
  using assms by (simp add: getWorkingFile_def SESSION_TTL_def Let_def)

theorem getWorkingFile_expiry_witness:
  "sample_sessions ''client'' = Some sample_session
   \<and> getWorkingFile sample_sessions ''client'' 86400001 86400002 = (None, Map.empty)
   \<and> getWorkingFile sample_sessions ''client'' 86400000 86400002 =
       (Some (sample_session\<lparr>lastAccessed := 86400002\<rparr>),
        [''client'' \<mapsto> sample_session\<lparr>lastAccessed := 86400002\<rparr>])"
proof -
  have h: "sample_sessions ''client'' = Some sample_session"
    by (simp add: sample_sessions_def)
  have s: "setAt sample_session = 0"
    by (simp add: sample_session_def)
  have u1: "sample_sessions(''client'' := None) = Map.empty"
    by (simp add: sample_sessions_def)
  have u2: "sample_sessions(''client'' \<mapsto> x) = [''client'' \<mapsto> x]" for x
    by (simp add: sample_sessions_def)
  from getWorkingFile_expiry [of sample_sessions "''client''" sample_session 86400001 86400002, OF h]
  have a: "getWorkingFile sample_sessions ''client'' 86400001 86400002 = (None, Map.empty)"
    by (simp add: s u1)
  from getWorkingFile_expiry [of sample_sessions "''client''" sample_session 86400000 86400002, OF h]
  have b: "getWorkingFile sample_sessions ''client'' 86400000 86400002 =
       (Some (sample_session\<lparr>lastAccessed := 86400002\<rparr>),
        [''client'' \<mapsto> sample_session\<lparr>lastAccessed := 86400002\<rparr>])"
    by (simp add: s u2)
  from h a b show ?thesis by simp
qed

lemma enqueue_bucket:
  "enqueue session q c =
     (case bucket session c of
        Pending \<Rightarrow> q\<lparr>pending := pending q @ [c]\<rparr>
      | InProgress \<Rightarrow> q\<lparr>inProgress := inProgress q @ [c]\<rparr>
      | Implemented \<Rightarrow> q\<lparr>implemented := implemented q @ [c]\<rparr>
      | NeedsUpdate \<Rightarrow> q\<lparr>needsUpdate := needsUpdate q @ [c]\<rparr>)"
  by (cases "tracked session (cli_id c)"; cases "bucket session c")
     (auto simp: enqueue_def bucket_def)

lemma foldl_enqueue:
  "foldl (enqueue session) q cs =
     q\<lparr> pending := pending q @ filter (\<lambda>c. bucket session c = Pending) cs,
        inProgress := inProgress q @ filter (\<lambda>c. bucket session c = InProgress) cs,
        implemented := implemented q @ filter (\<lambda>c. bucket session c = Implemented) cs,
        needsUpdate := needsUpdate q @ filter (\<lambda>c. bucket session c = NeedsUpdate) cs \<rparr>"
proof (induction cs arbitrary: q)
  case Nil
  show ?case by simp
next
  case (Cons c cs)
  have "foldl (enqueue session) q (c # cs) = foldl (enqueue session) (enqueue session q c) cs"
    by simp
  also have "\<dots> = (let q' = enqueue session q c in
     q'\<lparr> pending := pending q' @ filter (\<lambda>c. bucket session c = Pending) cs,
        inProgress := inProgress q' @ filter (\<lambda>c. bucket session c = InProgress) cs,
        implemented := implemented q' @ filter (\<lambda>c. bucket session c = Implemented) cs,
        needsUpdate := needsUpdate q' @ filter (\<lambda>c. bucket session c = NeedsUpdate) cs \<rparr>)"
    unfolding Let_def by (rule Cons.IH)
  also have "\<dots> =
     q\<lparr> pending := pending q @ filter (\<lambda>c. bucket session c = Pending) (c # cs),
        inProgress := inProgress q @ filter (\<lambda>c. bucket session c = InProgress) (c # cs),
        implemented := implemented q @ filter (\<lambda>c. bucket session c = Implemented) (c # cs),
        needsUpdate := needsUpdate q @ filter (\<lambda>c. bucket session c = NeedsUpdate) (c # cs) \<rparr>"
    by (cases "bucket session c") (simp_all add: enqueue_bucket Let_def)
  finally show ?case .
qed

lemma length_four_filters:
  "length (filter (\<lambda>c. f c = Pending) cs) + length (filter (\<lambda>c. f c = InProgress) cs)
   + length (filter (\<lambda>c. f c = Implemented) cs) + length (filter (\<lambda>c. f c = NeedsUpdate) cs)
   = length cs"
proof (induction cs)
  case Nil
  show ?case by simp
next
  case (Cons c cs)
  then show ?case by (cases "f c") simp_all
qed

text \<open>
  C8. \<open>getImplementationQueue\<close> partitions the candidate list. With \<open>session\<close> the live
  session of the client (none when absent or expired), each of the four lists is the
  sublist, in input order, of the components whose bucket is that status; the bucket of an
  untracked component is \<open>pending\<close>; the four lengths add up to \<open>total\<close>, the length of the
  input; without a live session everything is pending; and for three components of which
  the first alone is tracked, as implemented, the result holds it in \<open>implemented\<close> and the
  other two in \<open>pending\<close>.
\<close>

theorem getImplementationQueue_partition:
  fixes ss :: sessions and clientId :: string and cs :: "ComponentListItem list"
    and now accessed :: int
  defines "session \<equiv> fst (getWorkingFile ss clientId now accessed)"
  defines "q \<equiv> fst (getImplementationQueue ss clientId cs now accessed)"
  shows "pending q = filter (\<lambda>c. bucket session c = Pending) cs
       \<and> inProgress q = filter (\<lambda>c. bucket session c = InProgress) cs
       \<and> implemented q = filter (\<lambda>c. bucket session c = Implemented) cs
       \<and> needsUpdate q = filter (\<lambda>c. bucket session c = NeedsUpdate) cs
       \<and> total q = length cs
       \<and> length (pending q) + length (inProgress q) + length (implemented q)
           + length (needsUpdate q) = total q
       \<and> (\<forall>c. tracked session (cli_id c) = None \<longrightarrow> bucket session c = Pending)
       \<and> (session = None \<longrightarrow> pending q = cs)
       \<and> (\<forall>a b c s. cs = [a, b, c] \<and> tracked session (cli_id a) = Some s
              \<and> status s = Implemented \<and> tracked session (cli_id b) = None
              \<and> tracked session (cli_id c) = None
            \<longrightarrow> implemented q = [a] \<and> pending q = [b, c]
                \<and> inProgress q = [] \<and> needsUpdate q = [])"
proof -
  have q: "q = foldl (enqueue session)
                 \<lparr> pending = [], inProgress = [], implemented = [], needsUpdate = [],
                   total = length cs \<rparr> cs"
    by (simp add: q_def session_def getImplementationQueue_def split: prod.splits)
  have p: "pending q = filter (\<lambda>c. bucket session c = Pending) cs"
    and i: "inProgress q = filter (\<lambda>c. bucket session c = InProgress) cs"
    and m: "implemented q = filter (\<lambda>c. bucket session c = Implemented) cs"
    and n: "needsUpdate q = filter (\<lambda>c. bucket session c = NeedsUpdate) cs"
    and t: "total q = length cs"
    by (simp_all add: q foldl_enqueue)
  have l: "length (pending q) + length (inProgress q) + length (implemented q)
           + length (needsUpdate q) = total q"
    unfolding p i m n t by (rule length_four_filters)
  have u: "\<forall>c. tracked session (cli_id c) = None \<longrightarrow> bucket session c = Pending"
    by (simp add: bucket_def)
  have e: "session = None \<longrightarrow> pending q = cs"
    by (simp add: p bucket_def tracked_def)
  have three: "\<forall>a b c s. cs = [a, b, c] \<and> tracked session (cli_id a) = Some s
              \<and> status s = Implemented \<and> tracked session (cli_id b) = None
              \<and> tracked session (cli_id c) = None
            \<longrightarrow> implemented q = [a] \<and> pending q = [b, c]
                \<and> inProgress q = [] \<and> needsUpdate q = []"
  proof (intro allI impI, elim conjE)
    fix a b c s
    assume cs: "cs = [a, b, c]"
      and ta: "tracked session (cli_id a) = Some s" and sa: "status s = Implemented"
      and tb: "tracked session (cli_id b) = None" and tc: "tracked session (cli_id c) = None"
    have ba: "bucket session a = Implemented" and bb: "bucket session b = Pending"
      and bc: "bucket session c = Pending"
      by (simp_all add: bucket_def ta sa tb tc)
    show "implemented q = [a] \<and> pending q = [b, c] \<and> inProgress q = [] \<and> needsUpdate q = []"
      unfolding p i m n cs by (simp add: ba bb bc)
  qed
  show ?thesis
    by (intro conjI p i m n t l u e three)
qed

theorem getImplementationQueue_partition_witness:
  "fst (getImplementationQueue sample_sessions ''client''
          [sample_item ''1:1'', sample_item ''1:2'', sample_item ''1:3''] 5 6)
   = \<lparr> pending = [sample_item ''1:2'', sample_item ''1:3''], inProgress = [],
       implemented = [sample_item ''1:1''], needsUpdate = [], total = 3 \<rparr>"
proof -
  let ?cs = "[sample_item ''1:1'', sample_item ''1:2'', sample_item ''1:3'']"
  let ?session = "fst (getWorkingFile sample_sessions ''client'' 5 6)"
  let ?q = "fst (getImplementationQueue sample_sessions ''client'' ?cs 5 6)"
  have s: "?session = Some (sample_session\<lparr>lastAccessed := 6\<rparr>)"
    by (simp add: getWorkingFile_def sample_sessions_def sample_session_def SESSION_TTL_def
        Let_def)
  have a: "tracked ?session (cli_id (sample_item ''1:1''))
             = Some (sample_status ''1:1'' Implemented 1000)"
    and b: "tracked ?session (cli_id (sample_item ''1:2'')) = None"
    and c: "tracked ?session (cli_id (sample_item ''1:3'')) = None"
    and d: "status (sample_status ''1:1'' Implemented 1000) = Implemented"
    unfolding s by (simp_all add: tracked_def sample_session_def sample_item_def sample_status_def)
  note T = getImplementationQueue_partition [of sample_sessions "''client''" ?cs 5 6]
  from T have t: "total ?q = 3" by simp
  from T a b c d have r: "implemented ?q = [sample_item ''1:1'']
      \<and> pending ?q = [sample_item ''1:2'', sample_item ''1:3'']
      \<and> inProgress ?q = [] \<and> needsUpdate ?q = []"
    by blast
  from t r show ?thesis
    by (cases ?q) simp
qed

lemma bitlen_numeral:
  "bitlen 0 = 0" "bitlen (Suc 0) = 1" "bitlen (numeral k) = Suc (bitlen (numeral k div 2))"
  by (simp_all add: bitlen.simps [of 0] bitlen.simps [of "Suc 0"] bitlen.simps [of "numeral k"])

lemma percentage_1_3: "percentage (Suc 0) 3 = 33"
proof -
  have i1: "ilog2 (Suc 0) 3 = -2"
    by (simp add: ilog2_def Let_def bitlen_numeral)
  have f1: "fl (Suc 0) 3 = (6004799503160661, 18014398509481984)"
    by (simp add: fl_def i1 round_half_even_def Let_def)
  have i2: "ilog2 600479950316066100 18014398509481984 = 5"
    by (simp add: ilog2_def Let_def bitlen_numeral)
  have f2: "fl 600479950316066100 18014398509481984 = (4691249611844266, 140737488355328)"
    by (simp add: fl_def i2 round_half_even_def Let_def)
  show ?thesis
    by (simp add: percentage_def f1 f2 Math_round_def Let_def)
qed

lemma percentage_1_1: "percentage (Suc 0) (Suc 0) = 100"
proof -
  have i1: "ilog2 (Suc 0) (Suc 0) = 0"
    by (simp add: ilog2_def Let_def bitlen_numeral)
  have f1: "fl (Suc 0) (Suc 0) = (4503599627370496, 4503599627370496)"
    by (simp add: fl_def i1 round_half_even_def Let_def)
  have i2: "ilog2 450359962737049600 4503599627370496 = 6"
    by (simp add: ilog2_def Let_def bitlen_numeral)
  have f2: "fl 450359962737049600 4503599627370496 = (7036874417766400, 70368744177664)"
    by (simp add: fl_def i2 round_half_even_def Let_def)
  show ?thesis
    by (simp add: percentage_def f1 f2 Math_round_def Let_def)
qed

lemma getWorkingFile_live:
  assumes "ss clientId = Some session" and "now - setAt session \<le> 86400000"
  shows "getWorkingFile ss clientId now accessed =
           (Some (session\<lparr>lastAccessed := accessed\<rparr>),
            ss(clientId \<mapsto> session\<lparr>lastAccessed := accessed\<rparr>))"
  using assms by (simp add: getWorkingFile_def SESSION_TTL_def Let_def)

lemma summary_stats_live:
  assumes "ss clientId = Some session" and "now - setAt session \<le> 86400000"
  shows "stats (fst (getImplementationSummary ss clientId now accessed)) =
           \<lparr> st_total = length (implementationStatus session),
             st_pending = count_status (map snd (implementationStatus session)) Pending,
             st_inProgress = count_status (map snd (implementationStatus session)) InProgress,
             st_implemented = count_status (map snd (implementationStatus session)) Implemented,
             st_needsUpdate = count_status (map snd (implementationStatus session)) NeedsUpdate,
             st_completionPercentage =
               (if length (implementationStatus session) > 0
                then percentage (count_status (map snd (implementationStatus session)) Implemented)
                       (length (implementationStatus session))
                else 0) \<rparr>"
  by (simp add: getImplementationSummary_def map_values_def Let_def
      getWorkingFile_live [where ss = ss and clientId = clientId, OF assms])

lemma queue_sessions_live:
  assumes "ss clientId = Some session" and "n - setAt session \<le> 86400000"
  shows "snd (getImplementationQueue ss clientId cs n a) =
           ss(clientId \<mapsto> session\<lparr>lastAccessed := a\<rparr>)"
  by (simp add: getImplementationQueue_def
      getWorkingFile_live [where ss = ss and clientId = clientId, OF assms])

text \<open>
  C1 (as amended). For a client with a live session, \<open>getImplementationSummary\<close> counts the
  tracked status entries of the session only: \<open>total\<close> is their number, \<open>implemented\<close> the
  number of those with status implemented, and \<open>completionPercentage\<close> is
  \<open>Math.round((implemented / total) * 100)\<close>, or 0 when nothing is tracked. A component list
  given to \<open>getImplementationQueue\<close> before does not change it. Hence one tracked entry that
  is implemented gives 100, and 33 is reported when three entries are tracked of which one
  is implemented.
\<close>

theorem getImplementationSummary_percentage:
  fixes ss :: sessions and clientId :: string and now accessed :: int
  assumes live: "ss clientId = Some session" and fresh: "now - setAt session \<le> 86400000"
  defines "statuses \<equiv> map snd (implementationStatus session)"
  defines "r \<equiv> stats (fst (getImplementationSummary ss clientId now accessed))"
  shows "st_total r = length statuses
       \<and> st_implemented r = length (filter (\<lambda>s. status s = Implemented) statuses)
       \<and> st_completionPercentage r =
           (if st_total r = 0 then 0 else percentage (st_implemented r) (st_total r))
       \<and> (st_total r = 1 \<and> st_implemented r = 1 \<longrightarrow> st_completionPercentage r = 100)
       \<and> (st_total r = 3 \<and> st_implemented r = 1 \<longrightarrow> st_completionPercentage r = 33)
       \<and> (\<forall>cs n a. n - setAt session \<le> 86400000 \<longrightarrow>
             stats (fst (getImplementationSummary
                           (snd (getImplementationQueue ss clientId cs n a))
                           clientId now accessed)) = r)"
proof -
  note r = summary_stats_live [where ss = ss and clientId = clientId, OF live fresh,
      of accessed, folded r_def]
  have t: "st_total r = length statuses"
    and i: "st_implemented r = length (filter (\<lambda>s. status s = Implemented) statuses)"
    by (simp_all add: r statuses_def count_status_def)
  have c: "st_completionPercentage r =
           (if st_total r = 0 then 0 else percentage (st_implemented r) (st_total r))"
    by (simp add: r)
  have one: "st_total r = 1 \<and> st_implemented r = 1 \<longrightarrow> st_completionPercentage r = 100"
    unfolding c by (simp add: percentage_1_1)
  have three: "st_total r = 3 \<and> st_implemented r = 1 \<longrightarrow> st_completionPercentage r = 33"
    unfolding c by (simp add: percentage_1_3)
  have q: "\<forall>cs n a. n - setAt session \<le> 86400000 \<longrightarrow>
             stats (fst (getImplementationSummary
                           (snd (getImplementationQueue ss clientId cs n a))
                           clientId now accessed)) = r"
  proof (intro allI impI)
    fix cs :: "ComponentListItem list" and n a :: int
    assume n: "n - setAt session \<le> 86400000"
    let ?s = "session\<lparr>lastAccessed := a\<rparr>"
    let ?ss = "ss(clientId \<mapsto> ?s)"
    have l: "?ss clientId = Some ?s" by simp
    have f: "now - setAt ?s \<le> 86400000" using fresh by simp
    show "stats (fst (getImplementationSummary
                           (snd (getImplementationQueue ss clientId cs n a))
                           clientId now accessed)) = r"
      unfolding queue_sessions_live [where ss = ss and clientId = clientId, OF live n]
        summary_stats_live [where ss = ?ss and clientId = clientId, OF l f] r by simp
  qed
  show ?thesis
    by (intro conjI t i c one three q)
qed


lemma sample_live:
  "sample_sessions ''client'' = Some sample_session"
  "setAt sample_session = 0"
  "implementationStatus sample_session = [(''1:1'', sample_status ''1:1'' Implemented 1000)]"
  by (simp_all add: sample_sessions_def sample_session_def)

lemma sample_stats:
  "n \<le> 86400000 \<Longrightarrow>
   stats (fst (getImplementationSummary sample_sessions ''client'' n a)) =
     \<lparr> st_total = 1, st_pending = 0, st_inProgress = 0, st_implemented = 1,
       st_needsUpdate = 0, st_completionPercentage = 100 \<rparr>"
  by (simp add: summary_stats_live [where ss = sample_sessions and clientId = "''client''"
        and session = sample_session] sample_live count_status_def sample_status_def
        percentage_1_1)

text \<open>
  The sample session tracks one component, implemented: total 1, implemented 1, 100 percent.
\<close>

theorem getImplementationSummary_percentage_witness:
  "st_total (stats (fst (getImplementationSummary sample_sessions ''client'' 7 8))) = 1
   \<and> st_implemented (stats (fst (getImplementationSummary sample_sessions ''client'' 7 8))) = 1
   \<and> st_completionPercentage
        (stats (fst (getImplementationSummary sample_sessions ''client'' 7 8))) = 100"
proof -
  have f: "(7::int) - setAt sample_session \<le> 86400000"
    by (simp add: sample_live)
  note T = getImplementationSummary_percentage [where ss = sample_sessions
      and clientId = "''client''" and session = sample_session and now = 7 and accessed = 8,
      OF sample_live(1) f]
  have t: "st_total (stats (fst (getImplementationSummary sample_sessions ''client'' 7 8))) = 1"
    and i: "st_implemented (stats (fst (getImplementationSummary sample_sessions ''client'' 7 8))) = 1"
    by (simp_all add: sample_stats)
  from T have "st_total (stats (fst (getImplementationSummary sample_sessions ''client'' 7 8))) = 1
      \<and> st_implemented (stats (fst (getImplementationSummary sample_sessions ''client'' 7 8))) = 1
      \<longrightarrow> st_completionPercentage
            (stats (fst (getImplementationSummary sample_sessions ''client'' 7 8))) = 100"
    by (rule conjunct1 [OF conjunct2 [OF conjunct2 [OF conjunct2]]])
  with t i show ?thesis
    by (intro conjI) (assumption, assumption, rule mp, assumption, rule conjI)
qed

text \<open>
  C1 as stated fails: the queue is asked for three components of which one is tracked as
  implemented and two are untracked, and the summary that follows reports 100, not 33.
\<close>

theorem getImplementationSummary_one_of_three_counterexample:
  "total (fst (getImplementationQueue sample_sessions ''client''
                 [sample_item ''1:1'', sample_item ''1:2'', sample_item ''1:3''] 5 6)) = 3
   \<and> length (implemented (fst (getImplementationQueue sample_sessions ''client''
                 [sample_item ''1:1'', sample_item ''1:2'', sample_item ''1:3''] 5 6))) = 1
   \<and> st_completionPercentage (stats (fst (getImplementationSummary
         (snd (getImplementationQueue sample_sessions ''client''
                 [sample_item ''1:1'', sample_item ''1:2'', sample_item ''1:3''] 5 6))
         ''client'' 7 8))) = 100
   \<and> st_completionPercentage (stats (fst (getImplementationSummary
         (snd (getImplementationQueue sample_sessions ''client''
                 [sample_item ''1:1'', sample_item ''1:2'', sample_item ''1:3''] 5 6))
         ''client'' 7 8))) \<noteq> 33"
proof -
  let ?cs = "[sample_item ''1:1'', sample_item ''1:2'', sample_item ''1:3'']"
  let ?s = "sample_session\<lparr>lastAccessed := 6\<rparr>"
  let ?ss = "sample_sessions(''client'' \<mapsto> ?s)"
  have q: "snd (getImplementationQueue sample_sessions ''client'' ?cs 5 6) = ?ss"
    by (rule queue_sessions_live [where session = sample_session])
       (simp_all add: sample_live)
  have l: "?ss ''client'' = Some ?s" by simp
  have f: "(7::int) - setAt ?s \<le> 86400000" by (simp add: sample_live)
  have p: "st_completionPercentage (stats (fst (getImplementationSummary ?ss ''client'' 7 8))) = 100"
    unfolding summary_stats_live [where ss = ?ss and clientId = "''client''", OF l f]
    by (simp add: sample_live count_status_def sample_status_def percentage_1_1)
  have w: "fst (getImplementationQueue sample_sessions ''client'' ?cs 5 6)
   = \<lparr> pending = [sample_item ''1:2'', sample_item ''1:3''], inProgress = [],
       implemented = [sample_item ''1:1''], needsUpdate = [], total = 3 \<rparr>"
    by (simp add: getImplementationQueue_def getWorkingFile_live [where session = sample_session]
        sample_live enqueue_def tracked_def sample_item_def sample_status_def)
  show ?thesis
    unfolding q p w by simp
qed

lemma implementedAt_of_update:
  assumes "ss clientId = Some session" and "now - setAt session \<le> 86400000"
  shows "updateComponentStatus ss clientId cid cname st options now accessed updated =
           (True, ss(clientId \<mapsto> session\<lparr>
              implementationStatus := map_set (implementationStatus session) cid
                \<lparr> componentId = cid, componentName = cname, status = st,
                  lastModified = Some updated,
                  implementedAt = (if st = Implemented then Some updated
                                   else implementedAt_of ss clientId cid),
                  cis_notes = opt_notes options, cis_framework = opt_framework options \<rparr>,
              lastAccessed := updated \<rparr>))"
  using assms(1)
  by (simp add: updateComponentStatus_def implementedAt_of_def Let_def
      getWorkingFile_live [where ss = ss and clientId = clientId, OF assms]
      split: option.splits)

text \<open>
  C2 (as amended). For every live session, \<open>updateComponentStatus\<close> succeeds and leaves as
  \<open>implementedAt\<close> of the component the time of the call when the new status is implemented,
  whatever was tracked before, and the value tracked before (none for an untracked
  component) when the new status is any other.
\<close>

theorem updateComponentStatus_implementedAt:
  assumes live: "ss clientId = Some session" and fresh: "now - setAt session \<le> 86400000"
  shows "fst (updateComponentStatus ss clientId cid cname st options now accessed updated)
       \<and> implementedAt_of
             (snd (updateComponentStatus ss clientId cid cname st options now accessed updated))
             clientId cid
           = (if st = Implemented then Some updated else implementedAt_of ss clientId cid)"
  unfolding implementedAt_of_update [where ss = ss and clientId = clientId, OF live fresh]
  by (simp add: implementedAt_of_def map_get_map_set)

text \<open>
  On the sample session: moving the implemented component to needs-update keeps 1000;
  marking an untracked component implemented at 2002 records 2002.
\<close>

theorem updateComponentStatus_implementedAt_witness:
  "implementedAt_of sample_sessions ''client'' ''1:1'' = Some 1000
   \<and> implementedAt_of
         (snd (updateComponentStatus sample_sessions ''client'' ''1:1'' ''Button'' NeedsUpdate
                 \<lparr>opt_notes = None, opt_framework = None\<rparr> 2000 2001 2002))
         ''client'' ''1:1'' = Some 1000
   \<and> implementedAt_of
         (snd (updateComponentStatus sample_sessions ''client'' ''1:2'' ''Card'' Implemented
                 \<lparr>opt_notes = None, opt_framework = None\<rparr> 2000 2001 2002))
         ''client'' ''1:2'' = Some 2002"
proof -
  have f: "(2000::int) - setAt sample_session \<le> 86400000"
    by (simp add: sample_live)
  have b: "implementedAt_of sample_sessions ''client'' ''1:1'' = Some 1000"
    by (simp add: implementedAt_of_def sample_live sample_status_def)
  note T = updateComponentStatus_implementedAt [where ss = sample_sessions
      and clientId = "''client''" and session = sample_session and now = 2000,
      OF sample_live(1) f]
  from b T [of "''1:1''" "''Button''" NeedsUpdate] T [of "''1:2''" "''Card''" Implemented]
  show ?thesis by simp
qed

text \<open>
  C2 as stated fails: the component is tracked as implemented with \<open>implementedAt = 1000\<close>,
  and a further update to implemented at time 2002 leaves \<open>implementedAt = 2002\<close>.
\<close>

theorem updateComponentStatus_implementedAt_counterexample:
  "map_option status (map_get (implementationStatus sample_session) ''1:1'') = Some Implemented
   \<and> implementedAt_of sample_sessions ''client'' ''1:1'' = Some 1000
   \<and> fst (updateComponentStatus sample_sessions ''client'' ''1:1'' ''Button'' Implemented
            \<lparr>opt_notes = None, opt_framework = None\<rparr> 2000 2001 2002)
   \<and> implementedAt_of
         (snd (updateComponentStatus sample_sessions ''client'' ''1:1'' ''Button'' Implemented
                 \<lparr>opt_notes = None, opt_framework = None\<rparr> 2000 2001 2002))
         ''client'' ''1:1'' = Some 2002"
proof -
  have f: "(2000::int) - setAt sample_session \<le> 86400000"
    by (simp add: sample_live)
  have a: "map_option status (map_get (implementationStatus sample_session) ''1:1'')
             = Some Implemented"
    by (simp add: sample_live sample_status_def)
  have b: "implementedAt_of sample_sessions ''client'' ''1:1'' = Some 1000"
    by (simp add: implementedAt_of_def sample_live sample_status_def)
  have u: "updateComponentStatus sample_sessions ''client'' ''1:1'' ''Button'' Implemented
            \<lparr>opt_notes = None, opt_framework = None\<rparr> 2000 2001 2002
           = (True, sample_sessions(''client'' \<mapsto> sample_session\<lparr>
                implementationStatus := [(''1:1'',
                   \<lparr> componentId = ''1:1'', componentName = ''Button'', status = Implemented,
                     lastModified = Some 2002, implementedAt = Some 2002,
                     cis_notes = None, cis_framework = None \<rparr>)],
                lastAccessed := 2002 \<rparr>))"
    unfolding implementedAt_of_update [where ss = sample_sessions and clientId = "''client''",
        OF sample_live(1) f]
    by (simp add: sample_live)
  have c: "implementedAt_of
         (snd (updateComponentStatus sample_sessions ''client'' ''1:1'' ''Button'' Implemented
                 \<lparr>opt_notes = None, opt_framework = None\<rparr> 2000 2001 2002))
         ''client'' ''1:1'' = Some 2002"
    unfolding u by (simp add: implementedAt_of_def)
  have d: "fst (updateComponentStatus sample_sessions ''client'' ''1:1'' ''Button'' Implemented
            \<lparr>opt_notes = None, opt_framework = None\<rparr> 2000 2001 2002)"
    unfolding u by simp
  show ?thesis
    by (intro conjI a b c d)
qed

section \<open>Properties of the cache\<close>

lemma map_of_lru_remove: "map_of (lru_remove k items) k = None"
  by (induction items) (auto simp: lru_remove_def)

lemma lru_get_after_set:
  assumes "0 < lru_max c"
  shows "map_of (lru_items (lru_set c k v now)) k = Some (v, now)"
proof -
  let ?items = "(k, v, now) # lru_remove k (lru_items c)"
  show ?thesis
  proof (cases "length ?items > lru_max c")
    case True
    then have "lru_remove k (lru_items c) \<noteq> []" using assms by auto
    then have "butlast ?items = (k, v, now) # butlast (lru_remove k (lru_items c))" by simp
    with True show ?thesis by (simp add: lru_set_def Let_def)
  next
    case False
    then show ?thesis by (simp add: lru_set_def Let_def)
  qed
qed

lemma cache_get_Some:
  assumes "fst (cache_get cache key now) = Some v"
  shows "\<exists>entry start. map_of (lru_items (memoryCache cache)) key = Some (entry, start)
           \<and> data entry = v \<and> \<not> now - timestamp entry > ttl entry"
  using assms
  by (auto simp: cache_get_def lru_get_def isExpired_def split: option.splits if_splits prod.splits)

lemma new_sample: "new_CacheService \<lparr> maxSize = Some 100, opt_defaultTtl = Some 1000 \<rparr> = Some sample_cache"
  by (simp add: new_CacheService_def or_number_def lru_new_def sample_cache_def)

text \<open>
  C6 (as amended). On a cache with room for at least one entry, for every key, value and
  positive \<open>ttl\<close>: \<open>set(k, v, ttl)\<close> followed by \<open>get(k)\<close> at the same instant returns \<open>v\<close>, and
  \<open>get(k)\<close> at any time more than \<open>ttl\<close> after the set returns null. On every cache, a value
  that \<open>get\<close> returns comes from an entry of that key with \<open>now - timestamp \<le> ttl\<close>. A \<open>ttl\<close>
  of 0 is replaced by the default TTL: the entry is returned as long as neither the default
  TTL nor the age limit of the store has passed.
\<close>

theorem cache_set_get:
  fixes cache :: "'a CacheService"
  assumes cap: "0 < lru_max (memoryCache cache)" and age: "0 \<le> lru_ttl (memoryCache cache)"
    and pos: "0 < t"
  shows "fst (cache_get (cache_set cache k v (Some t) now) k now) = Some v
       \<and> (\<forall>later. later - now > t \<longrightarrow>
             fst (cache_get (cache_set cache k v (Some t) now) k later) = None)
       \<and> (\<forall>c key at w. fst (cache_get (c :: 'a CacheService) key at) = Some w \<longrightarrow>
             (\<exists>entry start. map_of (lru_items (memoryCache c)) key = Some (entry, start)
                \<and> data entry = w \<and> \<not> at - timestamp entry > ttl entry))
       \<and> (\<forall>later. later - now \<le> defaultTtl cache \<and> later - now \<le> lru_ttl (memoryCache cache)
             \<longrightarrow> fst (cache_get (cache_set cache k v (Some 0) now) k later) = Some v)"
proof -
  let ?e = "\<lparr> data = v, timestamp = now, ttl = t \<rparr>"
  let ?c = "cache_set cache k v (Some t) now"
  have m: "map_of (lru_items (memoryCache ?c)) k = Some (?e, now)"
    using pos by (simp add: cache_set_def or_number_def lru_get_after_set [OF cap])
  have l: "lru_ttl (memoryCache ?c) = lru_ttl (memoryCache cache)"
    by (simp add: cache_set_def lru_set_def Let_def)
  have a: "fst (cache_get ?c k now) = Some v"
    using age pos by (simp add: cache_get_def lru_get_def m l isExpired_def)
  have b: "\<forall>later. later - now > t \<longrightarrow> fst (cache_get ?c k later) = None"
  proof (intro allI impI)
    fix later assume "later - now > t"
    then show "fst (cache_get ?c k later) = None"
      by (simp add: cache_get_def lru_get_def m isExpired_def)
  qed
  have c: "\<forall>c key at w. fst (cache_get (c :: 'a CacheService) key at) = Some w \<longrightarrow>
             (\<exists>entry start. map_of (lru_items (memoryCache c)) key = Some (entry, start)
                \<and> data entry = w \<and> \<not> at - timestamp entry > ttl entry)"
    by (intro allI impI) (rule cache_get_Some)
  have d: "\<forall>later. later - now \<le> defaultTtl cache \<and> later - now \<le> lru_ttl (memoryCache cache)
             \<longrightarrow> fst (cache_get (cache_set cache k v (Some 0) now) k later) = Some v"
  proof (intro allI impI, elim conjE)
    fix later
    assume d1: "later - now \<le> defaultTtl cache" and d2: "later - now \<le> lru_ttl (memoryCache cache)"
    let ?d = "cache_set cache k v (Some 0) now"
    have md: "map_of (lru_items (memoryCache ?d)) k
                = Some (\<lparr> data = v, timestamp = now, ttl = defaultTtl cache \<rparr>, now)"
      by (simp add: cache_set_def or_number_def lru_get_after_set [OF cap])
    have ld: "lru_ttl (memoryCache ?d) = lru_ttl (memoryCache cache)"
      by (simp add: cache_set_def lru_set_def Let_def)
    show "fst (cache_get ?d k later) = Some v"
      using d1 d2 by (simp add: cache_get_def lru_get_def md ld isExpired_def)
  qed
  show ?thesis by (intro conjI a b c d)
qed

text \<open>
  The TTL test of the repository: a 50 ms entry is there at once and gone after 100 ms.
\<close>

theorem cache_set_get_witness:
  "fst (cache_get (cache_set sample_cache ''test-key'' ''test-value'' (Some 50) 0) ''test-key'' 0)
     = Some ''test-value''
   \<and> fst (cache_get (cache_set sample_cache ''test-key'' ''test-value'' (Some 50) 0) ''test-key'' 100)
     = None"
proof -
  have cap: "0 < lru_max (memoryCache sample_cache)"
    and age: "0 \<le> lru_ttl (memoryCache sample_cache)"
    by (simp_all add: sample_cache_def)
  have pos: "(0::int) < 50" by simp
  note T = cache_set_get [OF cap age pos, of "''test-key''" "''test-value''" 0]
  from T have a: "fst (cache_get (cache_set sample_cache ''test-key'' ''test-value'' (Some 50) 0)
                    ''test-key'' 0) = Some ''test-value''"
    by (rule conjunct1)
  from T have "\<forall>later. later - 0 > 50 \<longrightarrow>
      fst (cache_get (cache_set sample_cache ''test-key'' ''test-value'' (Some 50) 0)
             ''test-key'' later) = None"
    by (rule conjunct1 [OF conjunct2])
  then have b: "fst (cache_get (cache_set sample_cache ''test-key'' ''test-value'' (Some 50) 0)
                    ''test-key'' 100) = None"
    by simp
  show ?thesis by (intro conjI a b)
qed

text \<open>
  C6 as stated fails for a \<open>ttl\<close> that is not positive: set with \<open>ttl = 0\<close> still answers after
  1 ms, more than the \<open>ttl\<close> given, and set with \<open>ttl = -1\<close> followed at once by get returns
  null.
\<close>

theorem cache_set_get_counterexample:
  "fst (cache_get (cache_set sample_cache ''k'' ''v'' (Some 0) 0) ''k'' 1) = Some ''v''
   \<and> fst (cache_get (cache_set sample_cache ''k'' ''v'' (Some (- 1)) 0) ''k'' 0) = None"
  by (simp add: cache_get_def cache_set_def lru_get_def lru_set_def lru_remove_def
      lru_delete_def or_number_def isExpired_def sample_cache_def Let_def)

section \<open>Properties of state inference\<close>

lemma startsWith_iff: "startsWith s p \<longleftrightarrow> (\<exists>t. s = p @ t)"
  by (induction s p rule: startsWith.induct) auto

lemma includes_iff: "includes_str s p \<longleftrightarrow> (\<exists>a b. s = a @ p @ b)"
proof (induction s)
  case Nil
  show ?case by auto
next
  case (Cons c s)
  show ?case
  proof
    assume "includes_str (c # s) p"
    then consider "startsWith (c # s) p" | "includes_str s p" by auto
    then show "\<exists>a b. c # s = a @ p @ b"
    proof cases
      case 1
      then obtain t where "c # s = p @ t" by (auto simp: startsWith_iff)
      then have "c # s = [] @ p @ t" by simp
      then show ?thesis by blast
    next
      case 2
      then obtain a b where "s = a @ p @ b" using Cons.IH by blast
      then have "c # s = (c # a) @ p @ b" by simp
      then show ?thesis by blast
    qed
  next
    assume "\<exists>a b. c # s = a @ p @ b"
    then obtain a b where ab: "c # s = a @ p @ b" by blast
    show "includes_str (c # s) p"
    proof (cases a)
      case Nil
      with ab have "startsWith (c # s) p" by (auto simp: startsWith_iff)
      then show ?thesis by simp
    next
      case (Cons d a')
      with ab have "s = a' @ p @ b" by simp
      then have "includes_str s p" using Cons.IH by blast
      then show ?thesis by simp
    qed
  qed
qed

lemma endsWith_iff: "endsWith s p \<longleftrightarrow> (\<exists>t. s = t @ p)"
proof -
  have "endsWith s p \<longleftrightarrow> (\<exists>t. rev s = rev p @ t)"
    by (simp add: endsWith_def startsWith_iff)
  also have "\<dots> \<longleftrightarrow> (\<exists>t. s = t @ p)"
  proof
    assume "\<exists>t. rev s = rev p @ t"
    then obtain t where "rev s = rev p @ t" by blast
    then have "rev (rev s) = rev (rev p @ t)" by simp
    then have "s = rev t @ p" by simp
    then show "\<exists>t. s = t @ p" by blast
  next
    assume "\<exists>t. s = t @ p"
    then obtain t where "s = t @ p" by blast
    then have "rev s = rev p @ rev t" by simp
    then show "\<exists>t. rev s = rev p @ t" by blast
  qed
  finally show ?thesis .
qed

lemma includes_append_left: "includes_str s (x @ p) \<Longrightarrow> includes_str s p"
proof -
  assume "includes_str s (x @ p)"
  then obtain a b where "s = a @ (x @ p) @ b" by (auto simp: includes_iff)
  then have "s = (a @ x) @ p @ b" by simp
  then show ?thesis unfolding includes_iff by blast
qed

lemma includes_append_right: "includes_str s (p @ x) \<Longrightarrow> includes_str s p"
proof -
  assume "includes_str s (p @ x)"
  then obtain a b where "s = a @ (p @ x) @ b" by (auto simp: includes_iff)
  then have "s = a @ p @ (x @ b)" by simp
  then show ?thesis unfolding includes_iff by blast
qed

lemma pattern_hit_iff: "pattern_hit name p \<longleftrightarrow> includes_str name p"
proof
  assume "pattern_hit name p"
  then consider "name = p" | "includes_str name p"
    | x where "includes_str name (x @ p)" | x where "includes_str name (p @ x)"
    | "startsWith name (p @ '':'')" | "endsWith name ('':'' @ p)"
    unfolding pattern_hit_def by blast
  then show "includes_str name p"
  proof cases
    case 1
    then have "name = [] @ p @ []" by simp
    then show ?thesis unfolding includes_iff by blast
  next
    case 2 then show ?thesis .
  next
    case 3 then show ?thesis by (rule includes_append_left)
  next
    case 4 then show ?thesis by (rule includes_append_right)
  next
    case 5
    then obtain t where "name = (p @ '':'') @ t" unfolding startsWith_iff by blast
    then have "name = [] @ p @ ('':'' @ t)" by simp
    then show ?thesis unfolding includes_iff by blast
  next
    case 6
    then obtain t where "name = t @ ('':'' @ p)" unfolding endsWith_iff by blast
    then have "name = (t @ '':'') @ p @ []" by simp
    then show ?thesis unfolding includes_iff by blast
  qed
next
  assume "includes_str name p"
  then show "pattern_hit name p" by (simp add: pattern_hit_def)
qed

lemma scan_patterns_find: "scan_patterns name ps = List.find (includes_str name) ps"
  by (induction ps) (simp_all add: pattern_hit_iff)

lemma match_state_includes: "match_state s = Some m \<Longrightarrow> includes_str s m"
proof (induction s)
  case Nil
  then show ?case by simp
next
  case (Cons c s)
  show ?case
  proof (cases "startsWith (c # s) ''state='' \<and> takeWhile value_char (drop 6 (c # s)) \<noteq> []")
    case True
    with Cons.prems have m: "m = takeWhile value_char (drop 6 (c # s))" by simp
    have "c # s = take 6 (c # s) @ takeWhile value_char (drop 6 (c # s))
                    @ dropWhile value_char (drop 6 (c # s))"
      by simp
    then show ?thesis unfolding m includes_iff by blast
  next
    case False
    with Cons.prems have "match_state s = Some m" by (simp split: if_splits)
    then have "includes_str s m" by (rule Cons.IH)
    then show ?thesis by simp
  qed
qed

lemma parseState_find:
  "parseStateFromLayerName layerName ps = List.find (includes_str (toLowerCase layerName)) ps"
proof (cases "List.find (includes_str (toLowerCase layerName)) ps")
  case (Some p)
  then show ?thesis by (simp add: parseStateFromLayerName_def scan_patterns_find)
next
  case None
  then have no: "\<And>p. p \<in> set ps \<Longrightarrow> \<not> includes_str (toLowerCase layerName) p"
    by (auto simp: find_None_iff)
  have "\<And>m. match_state (toLowerCase layerName) = Some m \<Longrightarrow> m \<notin> set ps"
    using no match_state_includes by blast
  then show ?thesis
    using None
    by (auto simp: parseStateFromLayerName_def scan_patterns_find Let_def split: option.splits)
qed


lemma find_first:
  assumes "ps = pre @ x # post" and "\<And>p. p \<in> set pre \<Longrightarrow> \<not> P p" and "P x"
  shows "List.find P ps = Some x"
  using assms by (induction pre arbitrary: ps) auto

lemma toLowerCase_sample:
  "toLowerCase ''hover state=error'' = ''hover state=error''"
  "toLowerCase ''Button state=error'' = ''button state=error''"
  by (simp_all add: toLowerCase_def lower_char_def)

text \<open>
  C4 (as amended). State classification returns the first state of the canonical list
  that occurs anywhere in the lower-cased layer name. For a name that contains \<open>state=X\<close>
  with \<open>X\<close> canonical it therefore returns a canonical state that occurs in the name, and
  it returns \<open>X\<close> when no state before \<open>X\<close> in the list occurs in the name.
\<close>

theorem parseStateFromLayerName_first_pattern:
  "parseStateFromLayerName layerName statePatterns
     = List.find (includes_str (toLowerCase layerName)) statePatterns
   \<and> (\<forall>X pre post.
         includes_str (toLowerCase layerName) (''state='' @ X)
         \<and> statePatterns = pre @ X # post
         \<and> list_all (\<lambda>p. \<not> includes_str (toLowerCase layerName) p) pre
       \<longrightarrow> parseStateFromLayerName layerName statePatterns = Some X)
   \<and> (\<forall>X. includes_str (toLowerCase layerName) (''state='' @ X) \<and> X \<in> set statePatterns
       \<longrightarrow> (\<exists>p. parseStateFromLayerName layerName statePatterns = Some p
                 \<and> p \<in> set statePatterns \<and> includes_str (toLowerCase layerName) p))"
proof -
  let ?name = "toLowerCase layerName"
  have a: "parseStateFromLayerName layerName statePatterns
             = List.find (includes_str ?name) statePatterns"
    by (rule parseState_find)
  have b: "\<forall>X pre post.
         includes_str ?name (''state='' @ X) \<and> statePatterns = pre @ X # post
         \<and> list_all (\<lambda>p. \<not> includes_str ?name p) pre
       \<longrightarrow> parseStateFromLayerName layerName statePatterns = Some X"
  proof (intro allI impI, elim conjE)
    fix X pre post
    assume i: "includes_str ?name (''state='' @ X)" and s: "statePatterns = pre @ X # post"
      and n: "list_all (\<lambda>p. \<not> includes_str ?name p) pre"
    from i have "includes_str ?name X" by (rule includes_append_left)
    moreover from n have "\<And>p. p \<in> set pre \<Longrightarrow> \<not> includes_str ?name p"
      by (simp add: list_all_iff)
    ultimately have "List.find (includes_str ?name) statePatterns = Some X"
      using s by (intro find_first [where pre = pre and post = post]) auto
    then show "parseStateFromLayerName layerName statePatterns = Some X"
      by (simp add: a)
  qed
  have c: "\<forall>X. includes_str ?name (''state='' @ X) \<and> X \<in> set statePatterns
       \<longrightarrow> (\<exists>p. parseStateFromLayerName layerName statePatterns = Some p
                 \<and> p \<in> set statePatterns \<and> includes_str ?name p)"
  proof (intro allI impI, elim conjE)
    fix X
    assume i: "includes_str ?name (''state='' @ X)" and x: "X \<in> set statePatterns"
    from i have "includes_str ?name X" by (rule includes_append_left)
    with x have "List.find (includes_str ?name) statePatterns \<noteq> None"
      by (auto simp: find_None_iff)
    then obtain p where p: "List.find (includes_str ?name) statePatterns = Some p" by blast
    then have "p \<in> set statePatterns \<and> includes_str ?name p"
      by (auto simp: find_Some_iff)
    with p show "\<exists>p. parseStateFromLayerName layerName statePatterns = Some p
                 \<and> p \<in> set statePatterns \<and> includes_str ?name p"
      by (simp add: a)
  qed
  show ?thesis by (intro conjI a b c)
qed

text \<open>
  \<open>Button state=error\<close> contains none of the seven states listed before \<open>error\<close>, and
  classifies as \<open>error\<close>.
\<close>

theorem parseStateFromLayerName_first_pattern_witness:
  "parseStateFromLayerName ''Button state=error'' statePatterns = Some ''error''"
proof -
  let ?pre = "[''hover'', ''focus'', ''active'', ''pressed'', ''disabled'', ''selected'', ''loading'']"
  let ?post = "[''success'', ''warning'', ''visited'']"
  have i: "includes_str (toLowerCase ''Button state=error'') (''state='' @ ''error'')"
    by (simp add: toLowerCase_sample)
  have s: "statePatterns = ?pre @ ''error'' # ?post"
    by (simp add: statePatterns_def)
  have n: "list_all (\<lambda>p. \<not> includes_str (toLowerCase ''Button state=error'') p) ?pre"
    by (simp add: toLowerCase_sample)
  from parseStateFromLayerName_first_pattern [of "''Button state=error''"]
  have "\<forall>X pre post.
         includes_str (toLowerCase ''Button state=error'') (''state='' @ X)
         \<and> statePatterns = pre @ X # post
         \<and> list_all (\<lambda>p. \<not> includes_str (toLowerCase ''Button state=error'') p) pre
       \<longrightarrow> parseStateFromLayerName ''Button state=error'' statePatterns = Some X"
    by (rule conjunct1 [OF conjunct2])
  then have "includes_str (toLowerCase ''Button state=error'') (''state='' @ ''error'')
         \<and> statePatterns = ?pre @ ''error'' # ?post
         \<and> list_all (\<lambda>p. \<not> includes_str (toLowerCase ''Button state=error'') p) ?pre
       \<longrightarrow> parseStateFromLayerName ''Button state=error'' statePatterns = Some ''error''"
    by blast
  with i s n show ?thesis by blast
qed

text \<open>
  C4 as stated fails at its own example: \<open>hover state=error\<close> contains \<open>state=error\<close>, and
  classifies as \<open>hover\<close>, the first pattern of the list.
\<close>

theorem parseStateFromLayerName_state_assignment_counterexample:
  "includes_str ''hover state=error'' ''state=error''
   \<and> ''error'' \<in> set statePatterns
   \<and> parseStateFromLayerName ''hover state=error'' statePatterns = Some ''hover''"
proof -
  have a: "includes_str ''hover state=error'' ''state=error''" by simp
  have b: "''error'' \<in> set statePatterns" by (simp add: statePatterns_def)
  have c: "parseStateFromLayerName ''hover state=error'' statePatterns = Some ''hover''"
    by (simp add: parseStateFromLayerName_def toLowerCase_sample statePatterns_def
        pattern_hit_def)
  show ?thesis by (intro conjI a b c)
qed

section \<open>Properties of the tree traversal\<close>

text \<open>
  The recursion equations of the two searches over a
  store, their behaviour on the cyclic and the shared store, and their agreement with the
  searches over a tree.
\<close>

lemma findInNodes_store_Nil: "findInNodes_store h c [] = Some None"
  by (subst findInNodes_store.simps) simp

lemma findInNodes_store_Cons:
  "findInNodes_store h c (r # rest) =
     (if obj_id (h r) = c then Some (Some r)
      else Option.bind (findInNodes_store h c (obj_children (h r)))
             (\<lambda>found. case found of
                  Some f \<Rightarrow> Some (Some f)
                | None \<Rightarrow> findInNodes_store h c rest))"
  by (subst findInNodes_store.simps) simp

lemma traverse_store_Nil: "traverse_store h lm [] = Some []"
  by (subst traverse_store.simps) simp

lemma traverse_store_Cons:
  "traverse_store h lm (r # rest) =
     Option.bind (traverse_store h lm (obj_children (h r)))
       (\<lambda>below. Option.bind (traverse_store h lm rest)
          (\<lambda>after. Some (list_item lm (obj_id (h r)) (obj_name (h r)) (obj_type (h r))
                            (countVariants (obj_children (h r)))
                          @ below @ after)))"
  by (subst traverse_store.simps) simp

lemma cyclic_store_1:
  "obj_id (cyclic_store 7) = ''1:1''" "obj_children (cyclic_store 7) = [7]"
  "obj_name (cyclic_store 7) = ''Frame''" "obj_type (cyclic_store 7) = ''FRAME''"
  by (simp_all add: cyclic_store_def)

lemma findInNodes_store_cyclic_aux:
  assumes "findInNodes_store h c rs = Some y"
  shows "\<not> (h = cyclic_store \<and> c = ''9:9'' \<and> rs = [7])"
  using assms
proof (induction rule: findInNodes_store.raw_induct [rotated 1, consumes 1])
  case (1 f h c rs y)
  show ?case
  proof
    assume "h = cyclic_store \<and> c = ''9:9'' \<and> rs = [7]"
    with 1(2) obtain z where "f cyclic_store ''9:9'' [7] = Some z"
      by (auto simp: cyclic_store_1 Option.bind_eq_Some_conv)
    with 1(1) show False by blast
  qed
qed

lemma findInNodes_store_cyclic: "findInNodes_store cyclic_store ''9:9'' [7] = None"
proof (cases "findInNodes_store cyclic_store ''9:9'' [7]")
  case None
  then show ?thesis .
next
  case (Some y)
  from findInNodes_store_cyclic_aux [OF Some] show ?thesis by simp
qed

lemma traverse_store_cyclic_aux:
  assumes "traverse_store h lm rs = Some y"
  shows "\<not> (h = cyclic_store \<and> rs = [7])"
  using assms
proof (induction rule: traverse_store.raw_induct [rotated 1, consumes 1])
  case (1 f h lm rs y)
  show ?case
  proof
    assume "h = cyclic_store \<and> rs = [7]"
    with 1(2) obtain z where "f cyclic_store lm [7] = Some z"
      by (auto simp: cyclic_store_1 Option.bind_eq_Some_conv)
    with 1(1) show False by blast
  qed
qed

lemma traverse_store_cyclic: "traverse_store cyclic_store lm [7] = None"
proof (cases "traverse_store cyclic_store lm [7]")
  case None
  then show ?thesis .
next
  case (Some y)
  from traverse_store_cyclic_aux [OF Some] show ?thesis by simp
qed

lemma shared_store_objs:
  "shared_store 10 = \<lparr> obj_id = ''0:1'', obj_name = ''Page'', obj_type = ''CANVAS'', obj_children = [11, 12] \<rparr>"
  "shared_store 11 = \<lparr> obj_id = ''1:1'', obj_name = ''Frame A'', obj_type = ''FRAME'', obj_children = [13] \<rparr>"
  "shared_store 12 = \<lparr> obj_id = ''1:2'', obj_name = ''Frame B'', obj_type = ''FRAME'', obj_children = [13] \<rparr>"
  "shared_store 13 = \<lparr> obj_id = ''2:1'', obj_name = ''Button'', obj_type = ''COMPONENT'', obj_children = [] \<rparr>"
  by (simp_all add: shared_store_def)

lemma traverse_store_shared:
  "traverse_store shared_store lm [10] =
     Some [\<lparr> cli_id = ''2:1'', cli_name = ''Button'', cli_type = COMPONENT,
             cli_variantCount = None, cli_lastModified = lm, cli_published = True \<rparr>,
           \<lparr> cli_id = ''2:1'', cli_name = ''Button'', cli_type = COMPONENT,
             cli_variantCount = None, cli_lastModified = lm, cli_published = True \<rparr>]"
  by (simp add: traverse_store_Cons traverse_store_Nil shared_store_objs list_item_def)


lemma traverse_store_single:
  "traverse_store h lm [r] =
     Option.bind (traverse_store h lm (obj_children (h r)))
       (\<lambda>below. Some (list_item lm (obj_id (h r)) (obj_name (h r)) (obj_type (h r))
                         (countVariants (obj_children (h r))) @ below))"
  by (simp add: traverse_store_Cons [of h lm r "[]"] traverse_store_Nil)

lemma traverse_store_split:
  "traverse_store h lm (r # rest) =
     Option.bind (traverse_store h lm [r])
       (\<lambda>a. Option.bind (traverse_store h lm rest) (\<lambda>b. Some (a @ b)))"
  unfolding traverse_store_single traverse_store_Cons [of h lm r rest]
  by (cases "traverse_store h lm (obj_children (h r))"; cases "traverse_store h lm rest") simp_all

lemma traverse_store_forest:
  assumes "list_all2 (unfolds h) rs cs"
    and "\<And>c r. c \<in> set cs \<Longrightarrow> unfolds h r c \<Longrightarrow> traverse_store h lm [r] = Some (traverse lm c)"
  shows "traverse_store h lm rs = Some (concat (map (traverse lm) cs))"
  using assms
proof (induction rs cs rule: list_all2_induct)
  case Nil
  show ?case by (simp add: traverse_store_Nil)
next
  case (Cons r rs c cs)
  have a: "traverse_store h lm [r] = Some (traverse lm c)"
    using Cons.hyps(1) Cons.prems by simp
  have b: "traverse_store h lm rs = Some (concat (map (traverse lm) cs))"
    using Cons.IH Cons.prems by simp
  show ?case
    unfolding traverse_store_split [of h lm r rs] a b by simp
qed

lemma traverse_store_tree:
  "unfolds h r t \<Longrightarrow> traverse_store h lm [r] = Some (traverse lm t)"
proof (induction t arbitrary: r)
  case (Node i n ty cs)
  from Node.prems have o: "obj_id (h r) = i" "obj_name (h r) = n" "obj_type (h r) = ty"
    and l: "list_all2 (unfolds h) (obj_children (h r)) cs"
    by (auto elim: unfolds.cases)
  have f: "traverse_store h lm (obj_children (h r)) = Some (concat (map (traverse lm) cs))"
    using l Node.IH by (rule traverse_store_forest)
  have n: "countVariants (obj_children (h r)) = countVariants cs"
    using l by (simp add: countVariants_def list_all2_lengthD)
  show ?case
    unfolding traverse_store_single f by (simp add: o n)
qed

lemma traverse_preorder: "traverse lm t = concat (map (node_item lm) (preorder t))"
proof (induction t)
  case (Node i n ty cs)
  have "concat (map (traverse lm) cs) = concat (map (node_item lm) (concat (map preorder cs)))"
    using Node.IH by (induction cs) auto
  moreover have "node_item lm (Node i n ty cs) = list_item lm i n ty (countVariants cs)"
    by (simp add: node_item_def)
  ultimately show ?case by simp
qed

lemma find_append:
  "List.find P (xs @ ys) = (case List.find P xs of Some x \<Rightarrow> Some x | None \<Rightarrow> List.find P ys)"
  by (induction xs) auto

lemma findInNode_preorder: "findInNode c t = List.find (\<lambda>n. node_id n = c) (preorder t)"
proof (induction t)
  case (Node i n ty cs)
  have "first_some (findInNode c) cs = List.find (\<lambda>n. node_id n = c) (concat (map preorder cs))"
    using Node.IH by (induction cs) (auto simp: find_append split: option.splits)
  then show ?case by simp
qed

lemma findInNodes_store_single:
  "findInNodes_store h c [r] =
     (if obj_id (h r) = c then Some (Some r) else findInNodes_store h c (obj_children (h r)))"
  by (cases "findInNodes_store h c (obj_children (h r))")
     (auto simp: findInNodes_store_Cons [of h c r "[]"] findInNodes_store_Nil split: option.splits)

lemma findInNodes_store_split:
  "findInNodes_store h c (r # rest) =
     Option.bind (findInNodes_store h c [r])
       (\<lambda>found. case found of Some f \<Rightarrow> Some (Some f) | None \<Rightarrow> findInNodes_store h c rest)"
  unfolding findInNodes_store_single findInNodes_store_Cons [of h c r rest]
  by simp

lemma findInNodes_store_forest:
  assumes "list_all2 (unfolds h) rs cs"
    and "\<And>t r. t \<in> set cs \<Longrightarrow> unfolds h r t
           \<Longrightarrow> found_as h (findInNodes_store h c [r]) (findInNode c t)"
  shows "found_as h (findInNodes_store h c rs) (first_some (findInNode c) cs)"
  using assms
proof (induction rs cs rule: list_all2_induct)
  case Nil
  show ?case by (simp add: findInNodes_store_Nil found_as_def)
next
  case (Cons r rs t cs)
  have a: "found_as h (findInNodes_store h c [r]) (findInNode c t)"
    using Cons.hyps(1) Cons.prems by simp
  have b: "found_as h (findInNodes_store h c rs) (first_some (findInNode c) cs)"
    using Cons.IH Cons.prems by simp
  show ?case
  proof (cases "findInNode c t")
    case None
    with a have "findInNodes_store h c [r] = Some None" by (simp add: found_as_def)
    with b None show ?thesis
      by (simp add: findInNodes_store_split [of h c r rs])
  next
    case (Some t')
    with a obtain r' where "findInNodes_store h c [r] = Some (Some r')" "unfolds h r' t'"
      by (auto simp: found_as_def)
    with Some show ?thesis
      by (auto simp: findInNodes_store_split [of h c r rs] found_as_def)
  qed
qed

lemma findInNodes_store_tree:
  "unfolds h r t \<Longrightarrow> found_as h (findInNodes_store h c [r]) (findInNode c t)"
proof (induction t arbitrary: r)
  case (Node i n ty cs)
  from Node.prems have o: "obj_id (h r) = i"
    and l: "list_all2 (unfolds h) (obj_children (h r)) cs"
    by (auto elim: unfolds.cases)
  show ?case
  proof (cases "i = c")
    case True
    with o Node.prems show ?thesis
      by (auto simp: findInNodes_store_single found_as_def)
  next
    case False
    have "found_as h (findInNodes_store h c (obj_children (h r))) (first_some (findInNode c) cs)"
      using l Node.IH by (rule findInNodes_store_forest)
    with False o show ?thesis
      by (simp add: findInNodes_store_single)
  qed
qed


lemma unfolds_sample: "unfolds tree_store 10 sample_tree"
proof -
  have t0: "tree_store 10 = \<lparr> obj_id = ''0:1'', obj_name = ''Page'', obj_type = ''CANVAS'', obj_children = [11] \<rparr>"
    and t1: "tree_store 11 = \<lparr> obj_id = ''1:1'', obj_name = ''Frame A'', obj_type = ''FRAME'', obj_children = [13] \<rparr>"
    and t3: "tree_store 13 = \<lparr> obj_id = ''2:1'', obj_name = ''Button'', obj_type = ''COMPONENT'', obj_children = [] \<rparr>"
    by (simp_all add: tree_store_def)
  have u3: "unfolds tree_store 13 (Node ''2:1'' ''Button'' ''COMPONENT'' [])"
    by (rule unfolds.intros) (simp_all add: t3)
  have u1: "unfolds tree_store 11 (Node ''1:1'' ''Frame A'' ''FRAME'' [Node ''2:1'' ''Button'' ''COMPONENT'' []])"
    by (rule unfolds.intros) (simp_all add: t1 u3)
  show ?thesis
    unfolding sample_tree_def by (rule unfolds.intros) (simp_all add: t0 u1)
qed

text \<open>
  C5 (as amended). On every document that is a tree (an object graph that unfolds from the
  root to a finite tree, as a parsed JSON response does) both traversals terminate and
  visit each node once, in pre-order: the listing is the items of the nodes in pre-order,
  and the search for an id returns the first node in pre-order that carries it, or null. No
  set of visited nodes is kept.
\<close>

theorem traversal_of_tree:
  assumes "unfolds h r (document file)"
  shows "traverse_store h (file_lastModified file) [r] = Some (extractComponentList file)
       \<and> extractComponentList file
           = concat (map (node_item (file_lastModified file)) (preorder (document file)))
       \<and> findComponentInFile file c = List.find (\<lambda>n. node_id n = c) (preorder (document file))
       \<and> (case findComponentInFile file c of
             None \<Rightarrow> findInNodes_store h c [r] = Some None
           | Some t \<Rightarrow> (\<exists>r'. findInNodes_store h c [r] = Some (Some r') \<and> unfolds h r' t))"
proof -
  have a: "traverse_store h (file_lastModified file) [r] = Some (extractComponentList file)"
    unfolding extractComponentList_def using assms by (rule traverse_store_tree)
  have b: "extractComponentList file
           = concat (map (node_item (file_lastModified file)) (preorder (document file)))"
    unfolding extractComponentList_def by (rule traverse_preorder)
  have c: "findComponentInFile file c = List.find (\<lambda>n. node_id n = c) (preorder (document file))"
    unfolding findComponentInFile_def by (rule findInNode_preorder)
  have "found_as h (findInNodes_store h c [r]) (findInNode c (document file))"
    using assms by (rule findInNodes_store_tree)
  then have d: "case findComponentInFile file c of
             None \<Rightarrow> findInNodes_store h c [r] = Some None
           | Some t \<Rightarrow> (\<exists>r'. findInNodes_store h c [r] = Some (Some r') \<and> unfolds h r' t)"
    by (simp add: found_as_def findComponentInFile_def)
  show ?thesis by (intro conjI a b c d)
qed

text \<open>
  The sample page: the listing holds its one component, the search finds it, and the search
  for an id that is not there ends with null.
\<close>

theorem traversal_of_tree_witness:
  "traverse_store tree_store ''2024-01-01T00:00:00Z'' [10] =
     Some [\<lparr> cli_id = ''2:1'', cli_name = ''Button'', cli_type = COMPONENT,
             cli_variantCount = None, cli_lastModified = ''2024-01-01T00:00:00Z'',
             cli_published = True \<rparr>]
   \<and> findComponentInFile sample_file ''2:1'' = Some (Node ''2:1'' ''Button'' ''COMPONENT'' [])
   \<and> findComponentInFile sample_file ''9:9'' = None
   \<and> findInNodes_store tree_store ''9:9'' [10] = Some None"
proof -
  have u: "unfolds tree_store 10 (document sample_file)"
    by (simp add: sample_file_def unfolds_sample)
  have e: "extractComponentList sample_file =
     [\<lparr> cli_id = ''2:1'', cli_name = ''Button'', cli_type = COMPONENT,
             cli_variantCount = None, cli_lastModified = ''2024-01-01T00:00:00Z'',
             cli_published = True \<rparr>]"
    by (simp add: extractComponentList_def sample_file_def sample_tree_def list_item_def)
  have f1: "findComponentInFile sample_file ''2:1'' = Some (Node ''2:1'' ''Button'' ''COMPONENT'' [])"
    and f2: "findComponentInFile sample_file ''9:9'' = None"
    by (simp_all add: findComponentInFile_def sample_file_def sample_tree_def)
  note T = traversal_of_tree [OF u, of "''9:9''"]
  from T have a: "traverse_store tree_store (file_lastModified sample_file) [10]
                    = Some (extractComponentList sample_file)"
    by (rule conjunct1)
  from T have "case findComponentInFile sample_file ''9:9'' of
             None \<Rightarrow> findInNodes_store tree_store ''9:9'' [10] = Some None
           | Some t \<Rightarrow> (\<exists>r'. findInNodes_store tree_store ''9:9'' [10] = Some (Some r')
                          \<and> unfolds tree_store r' t)"
    by (rule conjunct2 [OF conjunct2 [OF conjunct2]])
  then have d: "findInNodes_store tree_store ''9:9'' [10] = Some None"
    by (simp add: f2)
  from a have a': "traverse_store tree_store ''2024-01-01T00:00:00Z'' [10] =
     Some [\<lparr> cli_id = ''2:1'', cli_name = ''Button'', cli_type = COMPONENT,
             cli_variantCount = None, cli_lastModified = ''2024-01-01T00:00:00Z'',
             cli_published = True \<rparr>]"
    unfolding e by (simp add: sample_file_def)
  show ?thesis by (intro conjI a' f1 f2 d)
qed

text \<open>
  C5 as stated fails on graphs that are not trees: on the frame that is its own child the
  search for an absent id and the listing never return, and on the page whose two frames
  share a component the listing visits the component twice.
\<close>

theorem traversal_revisits_counterexample:
  "findInNodes_store cyclic_store ''9:9'' [7] = None
   \<and> traverse_store cyclic_store ''2024-01-01T00:00:00Z'' [7] = None
   \<and> traverse_store shared_store ''2024-01-01T00:00:00Z'' [10] =
       Some [\<lparr> cli_id = ''2:1'', cli_name = ''Button'', cli_type = COMPONENT,
               cli_variantCount = None, cli_lastModified = ''2024-01-01T00:00:00Z'',
               cli_published = True \<rparr>,
             \<lparr> cli_id = ''2:1'', cli_name = ''Button'', cli_type = COMPONENT,
               cli_variantCount = None, cli_lastModified = ''2024-01-01T00:00:00Z'',
               cli_published = True \<rparr>]"
proof -
  have a: "findInNodes_store cyclic_store ''9:9'' [7] = None"
    using findInNodes_store_cyclic by simp
  have b: "traverse_store cyclic_store ''2024-01-01T00:00:00Z'' [7] = None"
    using traverse_store_cyclic by simp
  show ?thesis by (intro conjI a b traverse_store_shared)
qed

section \<open>Properties of effect conversion\<close>





lemma Math_round_samples:
  "Math_round_num (Dec 4 0) = 4" "Math_round_num (Dec 25 (- 1)) = 3"
  "Math_round_num (Dec (- 25) (- 1)) = - 2" "Math_round_num (Dec (- 4) (- 1)) = 0"
  "Math_round_num (Dec 0 0) = 0"
  by (simp_all add: Math_round_num_def)



















section \<open>Properties of token synthesis\<close>

text \<open>
  C10. \<open>convertVariableToToken\<close> returns null exactly when the value of the variable in the
  default mode of its collection is falsy. In particular a variable whose default-mode
  value is the boolean false, the number 0 or the empty string yields no token, exactly as
  one with no value in that mode.
\<close>

theorem convertVariableToToken_falsy:
  "(convertVariableToToken variable collectionsMap = Inr None
      \<longleftrightarrow> falsy (default_value variable collectionsMap))
   \<and> (\<forall>c m v e.
         map_get collectionsMap (variableCollectionId variable) = Some c
         \<and> default_mode (Some c) = Some m
         \<and> map_of (mode_values variable) m = Some v
         \<and> (v = VBool False \<or> v = VNumber (Dec 0 e) \<or> v = VString [])
       \<longrightarrow> convertVariableToToken variable collectionsMap = Inr None)"
proof -
  have a: "convertVariableToToken variable collectionsMap = Inr None
             \<longleftrightarrow> falsy (default_value variable collectionsMap)"
    by (auto simp: convertVariableToToken_def Let_def split: sum.splits)
  have b: "\<forall>c m v e.
         map_get collectionsMap (variableCollectionId variable) = Some c
         \<and> default_mode (Some c) = Some m
         \<and> map_of (mode_values variable) m = Some v
         \<and> (v = VBool False \<or> v = VNumber (Dec 0 e) \<or> v = VString [])
       \<longrightarrow> convertVariableToToken variable collectionsMap = Inr None"
  proof (intro allI impI, elim conjE)
    fix c m v e
    assume c: "map_get collectionsMap (variableCollectionId variable) = Some c"
      and m: "default_mode (Some c) = Some m"
      and v: "map_of (mode_values variable) m = Some v"
      and f: "v = VBool False \<or> v = VNumber (Dec 0 e) \<or> v = VString []"
    have "default_value variable collectionsMap = v"
      by (simp add: default_value_def c m v Let_def)
    moreover from f have "falsy v" by (auto simp: is_zero_def)
    ultimately show "convertVariableToToken variable collectionsMap = Inr None"
      by (simp add: a)
  qed
  show ?thesis by (intro conjI a b)
qed

lemma sample_collection_mode: "default_mode (Some sample_collection) = Some ''1:0''"
  by (simp add: default_mode_def sample_collection_def or_string_def)

text \<open>
  The sample BOOLEAN variable yields no token when its default-mode value is false, 0 or
  the empty string.
\<close>

theorem convertVariableToToken_falsy_witness:
  "convertVariableToToken (sample_variable (VBool False))
     [(''VariableCollectionId:1:2'', sample_collection)] = Inr None
   \<and> convertVariableToToken (sample_variable (VNumber (Dec 0 0)))
     [(''VariableCollectionId:1:2'', sample_collection)] = Inr None
   \<and> convertVariableToToken (sample_variable (VString []))
     [(''VariableCollectionId:1:2'', sample_collection)] = Inr None"
proof -
  let ?cm = "[(''VariableCollectionId:1:2'', sample_collection)]"
  have c: "map_get ?cm (variableCollectionId (sample_variable v)) = Some sample_collection" for v
    by (simp add: sample_variable_def)
  have v: "map_of (mode_values (sample_variable v)) ''1:0'' = Some v" for v
    by (simp add: sample_variable_def mode_values_def)
  have r: "convertVariableToToken (sample_variable v) ?cm = Inr None"
    if "v = VBool False \<or> v = VNumber (Dec 0 0) \<or> v = VString []" for v
  proof -
    from convertVariableToToken_falsy [of "sample_variable v" ?cm]
    have "\<forall>c m w e.
         map_get ?cm (variableCollectionId (sample_variable v)) = Some c
         \<and> default_mode (Some c) = Some m
         \<and> map_of (mode_values (sample_variable v)) m = Some w
         \<and> (w = VBool False \<or> w = VNumber (Dec 0 e) \<or> w = VString [])
       \<longrightarrow> convertVariableToToken (sample_variable v) ?cm = Inr None"
      by (rule conjunct2)
    then have "map_get ?cm (variableCollectionId (sample_variable v)) = Some sample_collection
         \<and> default_mode (Some sample_collection) = Some ''1:0''
         \<and> map_of (mode_values (sample_variable v)) ''1:0'' = Some v
         \<and> (v = VBool False \<or> v = VNumber (Dec 0 0) \<or> v = VString [])
       \<longrightarrow> convertVariableToToken (sample_variable v) ?cm = Inr None"
      by blast
    with c v sample_collection_mode that show ?thesis by blast
  qed
  show ?thesis by (intro conjI r) simp_all
qed

text \<open>
  With the value true the same variable yields a boolean token.
\<close>

lemma convertVariableToToken_true:
  "convertVariableToToken (sample_variable (VBool True))
     [(''VariableCollectionId:1:2'', sample_collection)] =
   Inr (Some \<lparr> tok_name = ''flags-show-icon'', tok_value = VBool True, tok_type = ''boolean'',
               tok_description = None, tok_category = Some ''miscellaneous'', tok_usage = None,
               tok_collectionName = Some ''Flags'',
               tok_variableId = Some ''VariableID:1:3'', tok_modes = None \<rparr>)"
proof -
  have n: "normalizeTokenName ''Flags-Show Icon'' = ''flags-show-icon''"
    by (simp add: normalizeTokenName_def toLowerCase_def lower_char_def slug_char_def
      strip_dash_start_def strip_dash_end_def)
  have d: "default_value (sample_variable (VBool True))
             [(''VariableCollectionId:1:2'', sample_collection)] = VBool True"
    by (simp add: default_value_def sample_variable_def sample_collection_mode mode_values_def)
  show ?thesis
    unfolding convertVariableToToken_def d Let_def
    by (simp add: sample_variable_def sample_collection_def or_string_def mode_values_def n
        processVariableValue_def mapVariableTypeToTokenType_def inferVariableCategory_def)
qed

lemma filterTokenTypes_metadata:
  "''all'' \<notin> set tokenTypes \<Longrightarrow> tc_metadata (filterTokenTypes tokens tokenTypes) = None"
  "''all'' \<in> set tokenTypes \<Longrightarrow> filterTokenTypes tokens tokenTypes = tokens"
  by (simp_all add: filterTokenTypes_def)

lemma processStylesAndVariables_metadata:
  "tc_metadata (processStylesAndVariables conv styles variables collections)
     = Some \<lparr> variablesAvailable = True, variablesMessage = None, planRequired = None \<rparr>"
proof -
  have p: "tc_metadata (push_token t b k) = tc_metadata t" for t b k
    by (cases b) (simp_all add: push_token_def)
  have s: "tc_metadata (style_step conv t x) = tc_metadata t" for t x
    by (simp add: style_step_def p split: sum.splits option.splits)
  have v: "tc_metadata (variable_step cm t x) = tc_metadata t" for cm t x
    by (simp add: variable_step_def p Let_def split: sum.splits option.splits)
  have fs: "tc_metadata (foldl (style_step conv) t xs) = tc_metadata t" for t xs
    by (induction xs arbitrary: t) (simp_all add: s)
  have fv: "tc_metadata (foldl (variable_step cm) t xs) = tc_metadata t" for cm t xs
    by (induction xs arbitrary: t) (simp_all add: v)
  show ?thesis
    by (simp add: processStylesAndVariables_def Let_def fs fv)
qed

text \<open>
  C3, what the code does. For a valid request whose \<open>tokenTypes\<close> does not contain \<open>all\<close>:
  when the collection is served from the cache, the result carries no metadata, whatever
  the cached collection holds; when it is built from the answers of the design tool, the
  result carries the metadata of the collection that was built, which is the failure
  record when the variables request was refused. The claim holds on the second path and
  fails on the first.
\<close>

theorem extractTokens_filter_metadata:
  assumes valid: "fileId_arg \<noteq> []" "set tokenTypes \<subseteq> set tokenType_names"
    and filter: "''all'' \<notin> set tokenTypes"
  shows "(\<forall>cached cache1.
            cache_get (ts_cache st) (designTokens_key fileId_arg) now = (Some cached, cache1)
          \<longrightarrow> (\<exists>res. fst (extractTokens conv st fileId_arg tokenTypes stylesResponse
                            variablesResponse now) = Inr res
                     \<and> tc_metadata res = None))
       \<and> (\<forall>cache1 styles.
            cache_get (ts_cache st) (designTokens_key fileId_arg) now = (None, cache1)
            \<and> stylesResponse = Inr styles
          \<longrightarrow> (\<exists>res m. fst (extractTokens conv st fileId_arg tokenTypes stylesResponse
                              variablesResponse now) = Inr res
                     \<and> tc_metadata res = Some m
                     \<and> (\<forall>error. variablesResponse = Inl error \<longrightarrow> m = variables_failure error)))"
proof (intro conjI allI impI)
  fix cached cache1
  assume "cache_get (ts_cache st) (designTokens_key fileId_arg) now = (Some cached, cache1)"
  then have "fst (extractTokens conv st fileId_arg tokenTypes stylesResponse variablesResponse now)
               = Inr (filterTokenTypes cached tokenTypes)"
    using valid by (simp add: extractTokens_def)
  then show "\<exists>res. fst (extractTokens conv st fileId_arg tokenTypes stylesResponse
                            variablesResponse now) = Inr res
                     \<and> tc_metadata res = None"
    using filter by (simp add: filterTokenTypes_metadata)
next
  fix cache1 styles
  assume "cache_get (ts_cache st) (designTokens_key fileId_arg) now = (None, cache1)
            \<and> stylesResponse = Inr styles"
  then have g: "cache_get (ts_cache st) (designTokens_key fileId_arg) now = (None, cache1)"
    and s: "stylesResponse = Inr styles"
    by simp_all
  show "\<exists>res m. fst (extractTokens conv st fileId_arg tokenTypes stylesResponse
                              variablesResponse now) = Inr res
                     \<and> tc_metadata res = Some m
                     \<and> (\<forall>error. variablesResponse = Inl error \<longrightarrow> m = variables_failure error)"
  proof (cases variablesResponse)
    case (Inl error)
    show ?thesis
      using valid
      by (simp add: extractTokens_def g s Inl Let_def)
  next
    case (Inr vc)
    show ?thesis
      using valid
      by (cases "figmaVariablesMetadata st")
         (simp_all add: extractTokens_def g s Inr Let_def processStylesAndVariables_metadata)
  qed
qed


lemma sample_failure:
  "variables_failure sample_refusal =
     \<lparr> variablesAvailable = False,
       variablesMessage = Some ''Figma Variables require Enterprise plan. Using legacy styles only.'',
       planRequired = Some ''Enterprise'' \<rparr>"
  by (simp add: variables_failure_def sample_refusal_def Let_def)

lemma sample_processed:
  "processStylesAndVariables sample_convert [()] [] [] =
     \<lparr> tc_colors = [sample_token], tc_typography = [], tc_spacing = [], tc_effects = [],
       tc_variables = [],
       tc_metadata = Some \<lparr> variablesAvailable = True, variablesMessage = None,
                             planRequired = None \<rparr> \<rparr>"
  by (simp add: processStylesAndVariables_def style_step_def sample_convert_def
      getCollectionFromTokenType_def push_token_def sample_token_def Let_def)

lemma sample_key: "designTokens_key ''abc123'' = ''tokens:abc123''"
  by (simp add: designTokens_key_def)

lemma first_call_eval:
  "first_call =
     (Inr sample_tokens,
      \<lparr> ts_cache = cache_set (ts_cache sample_state) ''tokens:abc123'' sample_tokens
                     (Some 86400000) 0,
        figmaVariablesMetadata = Some (variables_failure sample_refusal) \<rparr>)"
proof -
  have g: "cache_get (ts_cache sample_state) ''tokens:abc123'' 0 = (None, ts_cache sample_state)"
    by (simp add: cache_get_def lru_get_def sample_state_def)
  have v: "''abc123'' \<noteq> [] \<and> set [''colors''] \<subseteq> set tokenType_names"
    by (simp add: tokenType_names_def)
  have f: "filterTokenTypes sample_tokens [''colors'']
             = sample_tokens\<lparr>tc_metadata := None\<rparr>"
    by (simp add: filterTokenTypes_def sample_tokens_def)
  have t: "(processStylesAndVariables sample_convert [()] [] [])
             \<lparr>tc_metadata := Some (variables_failure sample_refusal)\<rparr> = sample_tokens"
    by (simp add: sample_processed sample_tokens_def)
  have m: "tc_metadata sample_tokens = Some (variables_failure sample_refusal)"
    by (simp add: sample_tokens_def)
  show ?thesis
    using v
    by (simp add: first_call_def extractTokens_def sample_key g Let_def t f m)
qed

lemma second_call_hit:
  "cache_get (ts_cache (snd first_call)) (designTokens_key ''abc123'') 1000 =
     (Some sample_tokens,
      (ts_cache sample_state)\<lparr>memoryCache := \<lparr> lru_max = 1000, lru_ttl = 3600000,
         lru_items = [(''tokens:abc123'',
                       \<lparr> data = sample_tokens, timestamp = 0, ttl = 86400000 \<rparr>, 1000)] \<rparr>\<rparr>)"
  by (simp add: first_call_eval sample_key cache_set_def cache_get_def lru_set_def lru_get_def
      lru_remove_def or_number_def isExpired_def sample_state_def Let_def)

text \<open>
  The failing input of C3: the first request for \<open>colors\<close> returns the metadata of the
  refused variables request; the same request served from the cache a second later returns
  none, while the request for \<open>all\<close> still returns it.
\<close>

theorem extractTokens_filter_metadata_witness:
  "map_sum id tc_metadata (fst first_call) =
     Inr (Some \<lparr> variablesAvailable = False,
                 variablesMessage =
                   Some ''Figma Variables require Enterprise plan. Using legacy styles only.'',
                 planRequired = Some ''Enterprise'' \<rparr>)
   \<and> map_sum id tc_metadata (fst (second_call [''colors''])) = Inr None
   \<and> map_sum id tc_metadata (fst (second_call [''all''])) =
     Inr (Some \<lparr> variablesAvailable = False,
                 variablesMessage =
                   Some ''Figma Variables require Enterprise plan. Using legacy styles only.'',
                 planRequired = Some ''Enterprise'' \<rparr>)"
proof -
  have a: "map_sum id tc_metadata (fst first_call) =
     Inr (Some \<lparr> variablesAvailable = False,
                 variablesMessage =
                   Some ''Figma Variables require Enterprise plan. Using legacy styles only.'',
                 planRequired = Some ''Enterprise'' \<rparr>)"
    by (simp add: first_call_eval sample_tokens_def sample_failure)
  have v: "''abc123'' \<noteq> []" "set [''colors''] \<subseteq> set tokenType_names"
    "''all'' \<notin> set [''colors'']"
    by (simp_all add: tokenType_names_def)
  from extractTokens_filter_metadata [OF v, of "snd first_call" 1000 sample_convert
      "Inr [()]" "Inl sample_refusal"]
  have "\<forall>cached cache1.
            cache_get (ts_cache (snd first_call)) (designTokens_key ''abc123'') 1000
              = (Some cached, cache1)
          \<longrightarrow> (\<exists>res. fst (second_call [''colors'']) = Inr res \<and> tc_metadata res = None)"
    unfolding second_call_def by (rule conjunct1)
  with second_call_hit
  have "\<exists>res. fst (second_call [''colors'']) = Inr res \<and> tc_metadata res = None"
    by blast
  then have b: "map_sum id tc_metadata (fst (second_call [''colors''])) = Inr None"
    by auto
  have w: "''abc123'' \<noteq> [] \<and> set [''all''] \<subseteq> set tokenType_names"
    by (simp add: tokenType_names_def)
  have "fst (second_call [''all'']) = Inr sample_tokens"
    using w second_call_hit
    by (simp add: second_call_def extractTokens_def filterTokenTypes_def)
  then have c: "map_sum id tc_metadata (fst (second_call [''all''])) =
     Inr (Some \<lparr> variablesAvailable = False,
                 variablesMessage =
                   Some ''Figma Variables require Enterprise plan. Using legacy styles only.'',
                 planRequired = Some ''Enterprise'' \<rparr>)"
    by (simp add: sample_tokens_def sample_failure)
  show ?thesis by (intro conjI a b c)
qed

end
